theory Spec2Isabelle
  imports Complex_Main "HOL-Library.Word"
begin

unbundle bit_operations_syntax

section \<open>Machine types of \<open>example/opengl_sphere.cpp\<close>\<close>

text \<open>
  The example is compiled for an LP64 host: \<open>size_t\<close> has 64 bits, \<open>int\<close> and the
  kernel's \<open>uint\<close> have 32. A \<open>float\<close> is kept as its IEEE-754 binary32 bit pattern and
  a \<open>double\<close> as its binary64 bit pattern, so that "bit-identical" is equality.
\<close>

type_synonym size_t = "64 word"
type_synonym uint = "32 word"
type_synonym c_int = "32 word"
type_synonym float32 = "32 word"
type_synonym float64 = "64 word"

text \<open>The \<open>float4\<close> vector type of the kernel language.\<close>

datatype float4 = Float4 (v_x: float32) (v_y: float32) (v_z: float32) (v_w: float32)

text \<open>The literals of the kernel source, as binary32 bit patterns.\<close>

definition lit_1f :: float32 where
  "lit_1f = 0x3F800000"

definition lit_2f :: float32 where
  "lit_2f = 0x40000000"

definition M_PI_F :: float32 where
  "M_PI_F = 0x40490FDB"

text \<open>
  The arithmetic of the compute device. The kernel language leaves the rounding of
  \<open>cos\<close> and \<open>sin\<close> (and, without further build options, of division) to the device, so
  the device's operations are a parameter of the model: every theorem about the kernel
  holds for every choice of them.
\<close>

record device_fp =
  fp_mul :: "float32 \<Rightarrow> float32 \<Rightarrow> float32"
  fp_div :: "float32 \<Rightarrow> float32 \<Rightarrow> float32"
  fp_cos :: "float32 \<Rightarrow> float32"
  fp_sin :: "float32 \<Rightarrow> float32"
  fp_of_uint :: "uint \<Rightarrow> float32"

section \<open>The kernel \<open>tesselate_sphere\<close>\<close>

text \<open>
  One work-item of the kernel. \<open>gid\<close> is the pair \<open>(get_global_id(0), get_global_id(1))\<close>,
  of type \<open>size_t\<close>; the assignments to \<open>const uint\<close> truncate it. The products
  \<open>phi_i * 2.f * M_PI_F / phi_slices\<close> and \<open>radius * cos(theta) * cos(phi)\<close> associate to
  the left, and the index \<open>phi_i*phi_slices+theta_i\<close> is computed in \<open>uint\<close>, so it wraps
  modulo \<open>2^32\<close>. The only effect of a work-item is one store into \<open>vertex_buffer\<close>; the
  function returns that store as the pair of the index and the vertex.
\<close>

definition kernel_phi :: "device_fp \<Rightarrow> uint \<Rightarrow> uint \<Rightarrow> float32" where
  "kernel_phi fp phi_i phi_slices =
     fp_div fp (fp_mul fp (fp_mul fp (fp_of_uint fp phi_i) lit_2f) M_PI_F)
               (fp_of_uint fp phi_slices)"

definition kernel_theta :: "device_fp \<Rightarrow> uint \<Rightarrow> uint \<Rightarrow> float32" where
  "kernel_theta fp theta_i theta_slices =
     fp_div fp (fp_mul fp (fp_mul fp (fp_of_uint fp theta_i) lit_2f) M_PI_F)
               (fp_of_uint fp theta_slices)"

definition kernel_vertex :: "device_fp \<Rightarrow> float32 \<Rightarrow> float32 \<Rightarrow> float32 \<Rightarrow> float4" where
  "kernel_vertex fp radius phi theta =
     Float4 (fp_mul fp (fp_mul fp radius (fp_cos fp theta)) (fp_cos fp phi))
            (fp_mul fp (fp_mul fp radius (fp_cos fp theta)) (fp_sin fp phi))
            (fp_mul fp radius (fp_sin fp theta))
            lit_1f"

definition tesselate_sphere_kernel ::
  "device_fp \<Rightarrow> float32 \<Rightarrow> uint \<Rightarrow> uint \<Rightarrow> size_t \<times> size_t \<Rightarrow> uint \<times> float4" where
  "tesselate_sphere_kernel fp radius phi_slices theta_slices gid =
     (let phi_i = (ucast (fst gid) :: uint);
          theta_i = (ucast (snd gid) :: uint);
          phi = kernel_phi fp phi_i phi_slices;
          theta = kernel_theta fp theta_i theta_slices;
          v = kernel_vertex fp radius phi theta
      in (phi_i * phi_slices + theta_i, v))"

text \<open>
  The global index space of a two-dimensional dispatch with offset \<open>{0, 0}\<close>: every pair
  below the work size. The order of the list is one admissible schedule (the kernel
  language fixes none); the theorems about the stores speak of the set of the list.
\<close>

definition work_items :: "size_t \<Rightarrow> size_t \<Rightarrow> (size_t \<times> size_t) list" where
  "work_items n0 n1 =
     map (\<lambda>(i, j). (word_of_nat i, word_of_nat j)) (List.product [0..<unat n0] [0..<unat n1])"

text \<open>The stores of one dispatch of the kernel over the work size \<open>(n0, n1)\<close>.\<close>

definition kernel_writes ::
  "device_fp \<Rightarrow> float32 \<Rightarrow> uint \<Rightarrow> uint \<Rightarrow> size_t \<times> size_t \<Rightarrow> (uint \<times> float4) list" where
  "kernel_writes fp radius phi_slices theta_slices work_size =
     map (tesselate_sphere_kernel fp radius phi_slices theta_slices)
         (work_items (fst work_size) (snd work_size))"

text \<open>
  A store into a buffer of \<open>float4\<close> cells (\<open>None\<close> is a cell never written). A store
  beyond the end of the buffer is undefined behaviour: the memory becomes \<open>None\<close> and
  stays so.
\<close>

definition store_float4 ::
  "uint \<times> float4 \<Rightarrow> float4 option list option \<Rightarrow> float4 option list option" where
  "store_float4 wr mem =
     (case mem of
        None \<Rightarrow> None
      | Some cells \<Rightarrow>
          if unat (fst wr) < length cells
          then Some (cells[unat (fst wr) := Some (snd wr)])
          else None)"

definition run_kernel ::
  "(uint \<times> float4) list \<Rightarrow> float4 option list \<Rightarrow> float4 option list option" where
  "run_kernel writes cells = fold store_float4 writes (Some cells)"

text \<open>
  The index of the store of the work-item \<open>gid\<close> when the dispatch is made by
  \<open>tesselate_sphere\<close> with the slice counts \<open>phi_slices\<close> and \<open>theta_slices\<close> (of type
  \<open>size_t\<close> there, truncated to \<open>uint\<close> by \<open>set_arg<uint_>\<close>), and the number of cells of
  the buffer that \<open>tesselate_sphere\<close> allocates for them.
\<close>

definition write_index :: "size_t \<Rightarrow> size_t \<times> size_t \<Rightarrow> uint" where
  "write_index phi_slices gid = ucast (fst gid) * ucast phi_slices + ucast (snd gid)"

definition vertex_count_of :: "size_t \<Rightarrow> size_t \<Rightarrow> size_t" where
  "vertex_count_of phi_slices theta_slices = phi_slices * theta_slices"

section \<open>The compute library and the graphics library, as the example uses them\<close>

text \<open>
  The headers \<open>boost/compute/*.hpp\<close> and the OpenCL, OpenGL and VTK libraries are not
  part of the example. They are modelled by what the example observes of them: the
  handles they return, the events they append to the trace of the process (output on
  \<open>std::cout\<close> and \<open>std::cerr\<close>, OpenGL calls, commands enqueued on a command queue),
  the contents of the OpenGL buffer objects, and the errors the compute library throws.
\<close>

datatype cl_error = NoDeviceError | BuildError string | OpenclError int

record device =
  device_name :: string
  device_extensions :: "string list"

text \<open>A default-constructed \<open>compute::context\<close>, \<open>command_queue\<close> or \<open>opengl_buffer\<close>
  holds a null handle.\<close>

datatype cl_context = Null_context | Context device

datatype command_queue = Null_queue | Command_queue cl_context device

datatype opengl_buffer = Null_buffer | Opengl_buffer cl_context nat

record kernel =
  kernel_name :: string
  arg_radius :: "float32 option"
  arg_phi_slices :: "uint option"
  arg_theta_slices :: "uint option"
  arg_vertex_buffer :: "opengl_buffer option"

text \<open>The calls into the compute library that can throw.\<close>

datatype cl_call =
    Default_device
  | Create_context device
  | Create_command_queue cl_context device
  | Get_context command_queue
  | Create_from_gl_buffer cl_context nat
  | Create_with_source cl_context
  | Build
  | Create_kernel string
  | Set_arg nat
  | Enqueue_acquire command_queue opengl_buffer
  | Enqueue_nd_range command_queue size_t size_t
  | Enqueue_release command_queue opengl_buffer

datatype event =
    Cout string
  | Cerr string
  | LoadExtension string
  | GL_GenBuffers nat
  | GL_BindBuffer nat
  | GL_BufferData size_t
  | CL_Acquire command_queue opengl_buffer
  | CL_NDRange command_queue kernel size_t size_t
  | CL_Release command_queue opengl_buffer
  | GL_EnableClientState
  | GL_VertexPointer nat nat
  | GL_DrawArrays c_int

text \<open>An OpenGL buffer object: the size of its data store in bytes, and the store as
  \<open>float4\<close> cells of 16 bytes.\<close>

record gl_buffer =
  buffer_bytes :: size_t
  buffer_cells :: "float4 option list"

text \<open>
  The world the example runs in. \<open>fails\<close> says which calls into the compute library
  throw, and what; it is a parameter of every theorem. The OpenGL buffer named \<open>n\<close>
  (names start at 1; 0 is "no buffer") is \<open>gl_buffers ! (n - 1)\<close>. \<open>GetBounds_bounds\<close>
  is the function-local \<open>static double bounds[6]\<close> of \<open>GetBounds\<close>, one object for the
  whole process, read by index.
\<close>

record world =
  default_device :: device
  arithmetic :: device_fp
  fails :: "cl_call \<Rightarrow> cl_error option"
  events :: "event list"
  gl_buffers :: "gl_buffer list"
  array_buffer_binding :: nat
  GetBounds_bounds :: "nat \<Rightarrow> float64"

text \<open>
  A call returns a value, throws, or has undefined behaviour (signed overflow, a store
  outside a buffer); in each case it leaves a state behind.
\<close>

datatype 'a outcome = Returns 'a | Raises cl_error | Undefined_behaviour

type_synonym ('s, 'a) prog = "'s \<Rightarrow> 'a outcome \<times> 's"

definition return :: "'a \<Rightarrow> ('s, 'a) prog" where
  "return a s = (Returns a, s)"

definition bind :: "('s, 'a) prog \<Rightarrow> ('a \<Rightarrow> ('s, 'b) prog) \<Rightarrow> ('s, 'b) prog" where
  "bind m f s =
     (case m s of
        (Returns a, s') \<Rightarrow> f a s'
      | (Raises e, s') \<Rightarrow> (Raises e, s')
      | (Undefined_behaviour, s') \<Rightarrow> (Undefined_behaviour, s'))"

definition seq :: "('s, 'a) prog \<Rightarrow> ('s, 'b) prog \<Rightarrow> ('s, 'b) prog" where
  "seq m n = bind m (\<lambda>_. n)"

definition emit :: "event \<Rightarrow> (world, unit) prog" where
  "emit e w = (Returns (), w\<lparr>events := events w @ [e]\<rparr>)"

text \<open>
  Modelled from the spec: a call into the compute library (the headers under
  \<open>boost/compute\<close>, of which the example has only the interface). A call either
  throws the error the world holds for it, or returns its result; see the error
  taxonomy of the specification (\<open>NoDeviceError\<close>, \<open>BuildError\<close>, a failed dispatch).
\<close>

definition lib_call :: "cl_call \<Rightarrow> 'a \<Rightarrow> (world, 'a) prog" where
  "lib_call c a w = (case fails w c of Some e \<Rightarrow> (Raises e, w) | None \<Rightarrow> (Returns a, w))"

text \<open>
  Modelled from the spec: \<open>device::supports_extension\<close>, the capability flags of a device
  (``must report cross-API sharing support'').
\<close>

definition supports_extension :: "device \<Rightarrow> string \<Rightarrow> bool" where
  "supports_extension d name = (name \<in> set (device_extensions d))"

text \<open>
  Modelled from the spec: \<open>command_queue::get_context\<close>, the context a queue is bound to,
  the null context for a default-constructed queue.
\<close>

definition get_context :: "command_queue \<Rightarrow> cl_context" where
  "get_context queue = (case queue of Null_queue \<Rightarrow> Null_context | Command_queue c d \<Rightarrow> c)"

text \<open>
  Modelled from the spec: \<open>opengl_buffer::get_opengl_object\<close>, ``the buffer's graphics-side
  identity'', 0 for a default-constructed buffer.
\<close>

definition get_opengl_object :: "opengl_buffer \<Rightarrow> nat" where
  "get_opengl_object b = (case b of Null_buffer \<Rightarrow> 0 | Opengl_buffer c vbo \<Rightarrow> vbo)"

text \<open>OpenGL: \<open>glGenBuffers\<close> returns a name not in use, \<open>glBindBuffer\<close> sets the binding
  of \<open>GL_ARRAY_BUFFER\<close>, \<open>glBufferData\<close> gives the bound buffer a new data store of the
  size asked for (a \<open>GLsizeiptr\<close>, signed; a negative size is an OpenGL error and changes
  nothing, as does a call with no buffer bound).\<close>

definition GenBuffersARB :: "(world, nat) prog" where
  "GenBuffersARB w =
     (let vbo = Suc (length (gl_buffers w))
      in (Returns vbo,
          w\<lparr>events := events w @ [GL_GenBuffers vbo],
            gl_buffers := gl_buffers w @ [\<lparr>buffer_bytes = 0, buffer_cells = []\<rparr>]\<rparr>))"

definition BindBufferARB :: "nat \<Rightarrow> (world, unit) prog" where
  "BindBufferARB vbo w =
     (Returns (), w\<lparr>events := events w @ [GL_BindBuffer vbo], array_buffer_binding := vbo\<rparr>)"

definition BufferDataARB :: "size_t \<Rightarrow> (world, unit) prog" where
  "BufferDataARB bytes w =
     (let b = array_buffer_binding w;
          w' = w\<lparr>events := events w @ [GL_BufferData bytes]\<rparr>
      in if 0 < b \<and> b \<le> length (gl_buffers w) \<and> 0 \<le> sint bytes
         then (Returns (),
               w'\<lparr>gl_buffers := (gl_buffers w)[b - 1 :=
                      \<lparr>buffer_bytes = bytes,
                       buffer_cells = replicate (unat bytes div 16) None\<rparr>]\<rparr>)
         else (Returns (), w'))"

text \<open>The cells a compute-side view of an OpenGL buffer addresses: those of the buffer
  object it was created from, none for a null handle or a name not in use.\<close>

definition cells_of :: "world \<Rightarrow> opengl_buffer \<Rightarrow> float4 option list" where
  "cells_of w b =
     (let vbo = get_opengl_object b
      in if 0 < vbo \<and> vbo \<le> length (gl_buffers w)
         then buffer_cells (gl_buffers w ! (vbo - 1)) else [])"

definition set_cells :: "opengl_buffer \<Rightarrow> float4 option list \<Rightarrow> world \<Rightarrow> world" where
  "set_cells b cells w =
     (let vbo = get_opengl_object b
      in if 0 < vbo \<and> vbo \<le> length (gl_buffers w)
         then w\<lparr>gl_buffers := (gl_buffers w)[vbo - 1 :=
                  (gl_buffers w ! (vbo - 1))\<lparr>buffer_cells := cells\<rparr>]\<rparr>
         else w)"

text \<open>
  Modelled from the spec: \<open>acquire(CommandQueue)\<close> ``marks the buffer as compute-owned'',
  ``enqueued in-order on the queue''; the call throws or appends the command.
\<close>

definition opengl_enqueue_acquire_buffer ::
  "opengl_buffer \<Rightarrow> command_queue \<Rightarrow> (world, unit) prog" where
  "opengl_enqueue_acquire_buffer b queue =
     seq (lib_call (Enqueue_acquire queue b) ()) (emit (CL_Acquire queue b))"

text \<open>
  Modelled from the spec: \<open>release(CommandQueue)\<close> ``marks the buffer as graphics-owned'';
  the call throws or appends the command.
\<close>

definition opengl_enqueue_release_buffer ::
  "opengl_buffer \<Rightarrow> command_queue \<Rightarrow> (world, unit) prog" where
  "opengl_enqueue_release_buffer b queue =
     seq (lib_call (Enqueue_release queue b) ()) (emit (CL_Release queue b))"

text \<open>
  Modelled from the spec: the device runs every work-item of the work size \<open>(n0, n1)\<close>
  against the cells of the buffer argument (``each of the \<open>phi_slices * theta_slices\<close>
  independent work-items computes one vertex'', ``kernel execution is assumed to
  complete before the call returns''). What one work-item does is the kernel of the
  source.
\<close>

definition execute_kernel :: "kernel \<Rightarrow> size_t \<Rightarrow> size_t \<Rightarrow> (world, unit) prog" where
  "execute_kernel k n0 n1 w =
     (case (arg_radius k, arg_phi_slices k, arg_theta_slices k, arg_vertex_buffer k) of
        (Some radius, Some phi_slices, Some theta_slices, Some b) \<Rightarrow>
          (case run_kernel (kernel_writes (arithmetic w) radius phi_slices theta_slices (n0, n1))
                           (cells_of w b) of
             None \<Rightarrow> (Undefined_behaviour, w)
           | Some cells \<Rightarrow> (Returns (), set_cells b cells w))
      | _ \<Rightarrow> (Raises (OpenclError (- 52)), w))"

text \<open>
  Modelled from the spec: \<open>dispatch(CommandQueue, Kernel, global_size, local_size)\<close>
  ``enqueues a 2-dimensional parallel kernel launch'', here with offset \<open>{0, 0}\<close> and
  groups of one work-item. A kernel with an argument not set is refused
  (\<open>CL_INVALID_KERNEL_ARGS\<close>, -52); otherwise the call throws or appends the command,
  and the device runs it.
\<close>

definition enqueue_nd_range_kernel ::
  "command_queue \<Rightarrow> kernel \<Rightarrow> size_t \<Rightarrow> size_t \<Rightarrow> (world, unit) prog" where
  "enqueue_nd_range_kernel queue k n0 n1 =
     (if arg_radius k = None \<or> arg_phi_slices k = None \<or> arg_theta_slices k = None
         \<or> arg_vertex_buffer k = None
      then (\<lambda>w. (Raises (OpenclError (- 52)), w))
      else seq (lib_call (Enqueue_nd_range queue n0 n1) ())
          (seq (emit (CL_NDRange queue k n0 n1)) (execute_kernel k n0 n1)))"

section \<open>The host function \<open>tesselate_sphere\<close>\<close>

text \<open>
  \<open>sizeof(float) * 4 * vertex_count\<close> is computed in \<open>size_t\<close>; \<open>set_arg<uint_>\<close> truncates
  the slice counts to 32 bits.
\<close>

definition tesselate_sphere ::
  "float32 \<Rightarrow> size_t \<Rightarrow> size_t \<Rightarrow> command_queue \<Rightarrow> (world, opengl_buffer) prog" where
  "tesselate_sphere radius phi_slices theta_slices queue =
     bind (lib_call (Get_context queue) (get_context queue)) (\<lambda>context'.
     let vertex_count = phi_slices * theta_slices in
     bind GenBuffersARB (\<lambda>vbo.
     seq (BindBufferARB vbo)
    (seq (BufferDataARB (4 * 4 * vertex_count))
    (seq (BindBufferARB 0)
    (bind (lib_call (Create_from_gl_buffer context' vbo) (Opengl_buffer context' vbo))
       (\<lambda>vertex_buffer.
     seq (lib_call (Create_with_source context') ())
    (seq (lib_call Build ())
    (bind (lib_call (Create_kernel ''tesselate_sphere'')
             \<lparr>kernel_name = ''tesselate_sphere'', arg_radius = None,
              arg_phi_slices = None, arg_theta_slices = None, arg_vertex_buffer = None\<rparr>)
       (\<lambda>kernel0.
     bind (lib_call (Set_arg 0) (kernel0\<lparr>arg_radius := Some radius\<rparr>)) (\<lambda>kernel1.
     bind (lib_call (Set_arg 1) (kernel1\<lparr>arg_phi_slices := Some (ucast phi_slices)\<rparr>))
       (\<lambda>kernel2.
     bind (lib_call (Set_arg 2) (kernel2\<lparr>arg_theta_slices := Some (ucast theta_slices)\<rparr>))
       (\<lambda>kernel3.
     bind (lib_call (Set_arg 3) (kernel3\<lparr>arg_vertex_buffer := Some vertex_buffer\<rparr>))
       (\<lambda>kernel4.
     seq (opengl_enqueue_acquire_buffer vertex_buffer queue)
    (seq (enqueue_nd_range_kernel queue kernel4 phi_slices theta_slices)
    (seq (opengl_enqueue_release_buffer vertex_buffer queue)
         (return vertex_buffer))))))))))))))))"

text \<open>
  The kernel object at the dispatch, after the four \<open>set_arg\<close>, and the events of a
  call of \<open>tesselate_sphere\<close> that returns, for the buffer name \<open>vbo\<close> that
  \<open>glGenBuffers\<close> gave it.
\<close>

definition tesselate_kernel :: "float32 \<Rightarrow> size_t \<Rightarrow> size_t \<Rightarrow> opengl_buffer \<Rightarrow> kernel" where
  "tesselate_kernel radius phi_slices theta_slices b =
     \<lparr>kernel_name = ''tesselate_sphere'', arg_radius = Some radius,
      arg_phi_slices = Some (ucast phi_slices), arg_theta_slices = Some (ucast theta_slices),
      arg_vertex_buffer = Some b\<rparr>"

definition tesselate_events ::
  "float32 \<Rightarrow> size_t \<Rightarrow> size_t \<Rightarrow> command_queue \<Rightarrow> nat \<Rightarrow> event list" where
  "tesselate_events radius phi_slices theta_slices queue vbo =
     (let b = Opengl_buffer (get_context queue) vbo
      in [GL_GenBuffers vbo, GL_BindBuffer vbo,
          GL_BufferData (4 * 4 * (phi_slices * theta_slices)), GL_BindBuffer 0,
          CL_Acquire queue b,
          CL_NDRange queue (tesselate_kernel radius phi_slices theta_slices b)
            phi_slices theta_slices,
          CL_Release queue b])"

section \<open>The class \<open>gpu_sphere_mapper\<close>\<close>

record gpu_sphere_mapper =
  m_radius :: float32
  m_phi_slices :: c_int
  m_theta_slices :: c_int
  m_vertex_count :: c_int
  m_initialized :: bool
  m_tesselated :: bool
  m_context :: cl_context
  m_command_queue :: command_queue
  m_vertex_buffer :: opengl_buffer

text \<open>The constructor leaves \<open>m_vertex_count\<close> uninitialised: its value is a parameter.
  \<open>5.0f\<close> is \<open>0x40A00000\<close>.\<close>

definition New :: "c_int \<Rightarrow> gpu_sphere_mapper" where
  "New indeterminate =
     \<lparr>m_radius = 0x40A00000, m_phi_slices = 100, m_theta_slices = 100,
      m_vertex_count = indeterminate, m_initialized = False, m_tesselated = False,
      m_context = Null_context, m_command_queue = Null_queue,
      m_vertex_buffer = Null_buffer\<rparr>"

text \<open>A member function runs on the object and the world.\<close>

type_synonym 'a member_function = "(gpu_sphere_mapper \<times> world, 'a) prog"

definition in_world :: "(world, 'a) prog \<Rightarrow> 'a member_function" where
  "in_world m = (\<lambda>(this, w). case m w of (r, w') \<Rightarrow> (r, (this, w')))"

definition assign :: "(gpu_sphere_mapper \<Rightarrow> gpu_sphere_mapper) \<Rightarrow> unit member_function" where
  "assign f = (\<lambda>(this, w). (Returns (), (f this, w)))"

definition Initialize :: "unit member_function" where
  "Initialize =
     seq (in_world (emit (LoadExtension ''GL_ARB_vertex_buffer_object'')))
    (bind (in_world (\<lambda>w. lib_call Default_device (default_device w) w)) (\<lambda>device.
     seq (in_world (emit (Cout (''device: '' @ device_name device))))
    (if \<not> supports_extension device ''cl_khr_gl_sharing''
     then seq (in_world (emit (Cerr (''error: '' @ ''gpu device: '' @ device_name device
                                      @ '' does not support OpenGL sharing''))))
              (return ())
     else bind (in_world (lib_call (Create_context device) (Context device))) (\<lambda>c.
          seq (assign (\<lambda>this. this\<lparr>m_context := c\<rparr>))
         (bind (in_world (lib_call (Create_command_queue c device) (Command_queue c device)))
            (\<lambda>q.
          assign (\<lambda>this. this\<lparr>m_command_queue := q\<rparr>)))))))"

text \<open>\<open>m_phi_slices * m_theta_slices\<close> is a product of \<open>int\<close>: overflow is undefined.\<close>

definition int_mul :: "c_int \<Rightarrow> c_int \<Rightarrow> c_int option" where
  "int_mul a b =
     (if - (2 ^ 31) \<le> sint a * sint b \<and> sint a * sint b < 2 ^ 31 then Some (a * b) else None)"

text \<open>
  \<open>Render\<close>, block by block: the lazy initialisation, the lazy tesselation, the draw.
  An \<open>int\<close> passed for a \<open>size_t\<close> parameter is sign-extended.
\<close>

definition Render_initialize :: "unit member_function" where
  "Render_initialize = (\<lambda>(this, w).
     if \<not> m_initialized this
     then seq Initialize (assign (\<lambda>this. this\<lparr>m_initialized := True\<rparr>)) (this, w)
     else (Returns (), (this, w)))"

definition Render_tesselate :: "unit member_function" where
  "Render_tesselate = (\<lambda>(this, w).
     if \<not> m_tesselated this
     then (case int_mul (m_phi_slices this) (m_theta_slices this) of
             None \<Rightarrow> (Undefined_behaviour, (this, w))
           | Some n \<Rightarrow>
               seq (assign (\<lambda>this. this\<lparr>m_vertex_count := n\<rparr>))
              (bind (in_world (tesselate_sphere (m_radius this)
                                 (scast (m_phi_slices this)) (scast (m_theta_slices this))
                                 (m_command_queue this)))
                 (\<lambda>b.
               seq (assign (\<lambda>this. this\<lparr>m_vertex_buffer := b\<rparr>))
                   (assign (\<lambda>this. this\<lparr>m_tesselated := True\<rparr>)))) (this, w))
     else (Returns (), (this, w)))"

definition Render_draw :: "unit member_function" where
  "Render_draw = (\<lambda>(this, w).
     seq (in_world (emit GL_EnableClientState))
    (seq (in_world (BindBufferARB (get_opengl_object (m_vertex_buffer this))))
    (seq (in_world (emit (GL_VertexPointer 4 (4 * 4))))
         (in_world (emit (GL_DrawArrays (m_vertex_count this)))))) (this, w))"

definition Render :: "unit member_function" where
  "Render = seq Render_initialize (seq Render_tesselate Render_draw)"

text \<open>
  \<open>GetBounds\<close>: \<open>-m_radius\<close> is a \<open>float\<close> negation (the sign bit flips), and the
  assignment to a \<open>double\<close> widens it. Widening is exact: a normal number keeps its
  fraction and has its exponent rebiased (by 1023 - 127 = 896), a subnormal number
  becomes a normal one, zeros and infinities keep their sign, and a NaN keeps its sign
  and payload and is made quiet (as the host's conversion instruction does).
\<close>

definition float_neg :: "float32 \<Rightarrow> float32" where
  "float_neg f = f XOR 0x80000000"

fun highest_bit :: "nat \<Rightarrow> nat" where
  "highest_bit n = (if n < 2 then 0 else Suc (highest_bit (n div 2)))"

declare highest_bit.simps [simp del]

definition float_to_double :: "float32 \<Rightarrow> float64" where
  "float_to_double f =
     (let s = (if bit f 31 then 1 else 0 :: nat);
          e = unat (take_bit 8 (drop_bit 23 f));
          m = unat (take_bit 23 f)
      in if e = 255 then
           word_of_nat (s * 2 ^ 63 + 2047 * 2 ^ 52 + (if m = 0 then 0 else 2 ^ 51 OR m * 2 ^ 29))
         else if e = 0 then
           (if m = 0 then word_of_nat (s * 2 ^ 63)
            else let h = highest_bit m
                 in word_of_nat (s * 2 ^ 63 + (h + 874) * 2 ^ 52 + (m - 2 ^ h) * 2 ^ (52 - h)))
         else word_of_nat (s * 2 ^ 63 + (e + 896) * 2 ^ 52 + m * 2 ^ 29))"

text \<open>
  The values that the IEEE 754 formats give to the bit patterns: a \<open>float\<close> has a sign
  bit, 8 exponent bits (bias 127) and 23 fraction bits, a \<open>double\<close> a sign bit, 11
  exponent bits (bias 1023) and 52 fraction bits. The exponent field 0 holds zero and
  the subnormal numbers, the largest field infinities and NaNs, which have no value.
\<close>

definition float_value :: "float32 \<Rightarrow> real" where
  "float_value f =
     (let s = (if bit f 31 then - 1 else 1 :: real);
          e = unat (take_bit 8 (drop_bit 23 f));
          m = unat (take_bit 23 f)
      in s * real (if e = 0 then m else 2 ^ 23 + m) * 2 ^ (max e 1) / 2 ^ 150)"

definition double_value :: "float64 \<Rightarrow> real" where
  "double_value d =
     (let s = (if bit d 63 then - 1 else 1 :: real);
          e = unat (take_bit 11 (drop_bit 52 d));
          m = unat (take_bit 52 d)
      in s * real (if e = 0 then m else 2 ^ 52 + m) * 2 ^ (max e 1) / 2 ^ 1075)"

definition is_finite :: "float32 \<Rightarrow> bool" where
  "is_finite f = (unat (take_bit 8 (drop_bit 23 f)) \<noteq> 255)"

text \<open>
  The result of \<open>GetBounds\<close> is the address of the static array; the caller reads the six
  bounds through it.
\<close>

datatype double_ptr = Ptr_GetBounds_bounds nat

definition GetBounds :: "gpu_sphere_mapper \<Rightarrow> world \<Rightarrow> double_ptr \<times> world" where
  "GetBounds this w =
     (let bounds = GetBounds_bounds w;
          bounds = bounds(0 := float_to_double (float_neg (m_radius this)));
          bounds = bounds(1 := float_to_double (m_radius this));
          bounds = bounds(2 := float_to_double (float_neg (m_radius this)));
          bounds = bounds(3 := float_to_double (m_radius this));
          bounds = bounds(4 := float_to_double (float_neg (m_radius this)));
          bounds = bounds(5 := float_to_double (m_radius this))
      in (Ptr_GetBounds_bounds 0, w\<lparr>GetBounds_bounds := bounds\<rparr>))"

definition read_double :: "world \<Rightarrow> double_ptr \<Rightarrow> nat \<Rightarrow> float64" where
  "read_double w p i = (case p of Ptr_GetBounds_bounds off \<Rightarrow> GetBounds_bounds w (off + i))"

definition read_bounds :: "world \<Rightarrow> double_ptr \<Rightarrow> float64 list" where
  "read_bounds w p = map (read_double w p) [0..<6]"

section \<open>Runs of the render loop, and what they are checked against\<close>

text \<open>
  The host calls \<open>Render\<close> once per frame. Between two frames the compute library may
  change its mind about which calls fail: a run is given by one \<open>fails\<close> per frame. A run
  continues after a frame that threw (the host may catch the error); it ends, with no
  result, in a frame with undefined behaviour.
\<close>

fun Render_calls ::
  "(cl_call \<Rightarrow> cl_error option) list \<Rightarrow> gpu_sphere_mapper \<times> world
     \<Rightarrow> (gpu_sphere_mapper \<times> world) option" where
  "Render_calls [] sw = Some sw"
| "Render_calls (f # fs) sw =
     (case Render (fst sw, (snd sw)\<lparr>fails := f\<rparr>) of
        (Undefined_behaviour, sw') \<Rightarrow> None
      | (out, sw') \<Rightarrow> Render_calls fs sw')"

text \<open>The events a call appended to the trace.\<close>

definition new_events :: "world \<Rightarrow> world \<Rightarrow> event list" where
  "new_events w w' = drop (length (events w)) (events w')"

definition is_dispatch :: "event \<Rightarrow> bool" where
  "is_dispatch e = (case e of CL_NDRange q k n0 n1 \<Rightarrow> True | _ \<Rightarrow> False)"

definition is_queue_event :: "event \<Rightarrow> bool" where
  "is_queue_event e =
     (case e of CL_Acquire q b \<Rightarrow> True | CL_NDRange q k n0 n1 \<Rightarrow> True
      | CL_Release q b \<Rightarrow> True | _ \<Rightarrow> False)"

definition is_output :: "event \<Rightarrow> bool" where
  "is_output e =
     (case e of Cout x \<Rightarrow> True | Cerr x \<Rightarrow> True | LoadExtension x \<Rightarrow> True | _ \<Rightarrow> False)"

definition is_draw :: "event \<Rightarrow> bool" where
  "is_draw e = (case e of GL_DrawArrays n \<Rightarrow> True | _ \<Rightarrow> False)"

text \<open>The four OpenGL calls of the draw block of \<open>Render\<close>.\<close>

definition draw_events :: "gpu_sphere_mapper \<Rightarrow> event list" where
  "draw_events this =
     [GL_EnableClientState, GL_BindBuffer (get_opengl_object (m_vertex_buffer this)),
      GL_VertexPointer 4 16, GL_DrawArrays (m_vertex_count this)]"

text \<open>
  The hand-off protocol of a shared buffer, checked along a trace. A buffer (by its
  OpenGL name) is untouched, acquired on a queue, written by a dispatch on that queue,
  or released on that queue. An acquire needs a buffer that is not acquired; a dispatch
  needs its buffer argument acquired on the same queue; a release needs the dispatch
  enqueued before it on the same queue; a draw needs the buffer bound to
  \<open>GL_ARRAY_BUFFER\<close> released. The check returns \<open>None\<close> at the first event that breaks
  the protocol.
\<close>

datatype phase = Untouched | Acquired command_queue | Dispatched command_queue
  | Released command_queue

type_synonym protocol_state = "(nat \<Rightarrow> phase) \<times> nat"

definition is_released :: "phase \<Rightarrow> bool" where
  "is_released p = (case p of Released q \<Rightarrow> True | _ \<Rightarrow> False)"

definition protocol_step :: "event \<Rightarrow> protocol_state \<Rightarrow> protocol_state option" where
  "protocol_step e st =
     (case e of
        CL_Acquire q b \<Rightarrow>
          (let v = get_opengl_object b
           in if fst st v = Untouched \<or> is_released (fst st v)
              then Some ((fst st)(v := Acquired q), snd st) else None)
      | CL_NDRange q k n0 n1 \<Rightarrow>
          (case arg_vertex_buffer k of
             None \<Rightarrow> None
           | Some b \<Rightarrow>
               (let v = get_opengl_object b
                in if fst st v = Acquired q
                   then Some ((fst st)(v := Dispatched q), snd st) else None))
      | CL_Release q b \<Rightarrow>
          (let v = get_opengl_object b
           in if fst st v = Dispatched q
              then Some ((fst st)(v := Released q), snd st) else None)
      | GL_BindBuffer v \<Rightarrow> Some (fst st, v)
      | GL_DrawArrays n \<Rightarrow> (if is_released (fst st (snd st)) then Some st else None)
      | _ \<Rightarrow> Some st)"

fun protocol :: "event list \<Rightarrow> protocol_state \<Rightarrow> protocol_state option" where
  "protocol [] st = Some st"
| "protocol (e # es) st =
     (case protocol_step e st of None \<Rightarrow> None | Some st' \<Rightarrow> protocol es st')"

definition protocol_ok :: "event list \<Rightarrow> bool" where
  "protocol_ok es = (protocol es (\<lambda>v. Untouched, 0) \<noteq> None)"

text \<open>
  The order of the whole queue, whatever the buffers: acquire, dispatch and release follow
  one another in this order, and no acquire is enqueued while another is outstanding.
  The state is 0 when nothing is outstanding, 1 after an acquire, 2 after the dispatch.
\<close>

fun queue_cycle :: "event list \<Rightarrow> nat \<Rightarrow> nat option" where
  "queue_cycle [] k = Some k"
| "queue_cycle (e # es) k =
     (case e of
        CL_Acquire q b \<Rightarrow> if k = 0 then queue_cycle es 1 else None
      | CL_NDRange q kn n0 n1 \<Rightarrow> if k = 1 then queue_cycle es 2 else None
      | CL_Release q b \<Rightarrow> if k = 2 then queue_cycle es 0 else None
      | _ \<Rightarrow> queue_cycle es k)"

definition strictly_alternating :: "event list \<Rightarrow> bool" where
  "strictly_alternating es = (queue_cycle es 0 \<noteq> None)"

text \<open>
  What every call of \<open>Render\<close> keeps true of the object and the trace: the trace follows
  the protocol, no buffer name beyond those in use has been touched, and a tesselated
  mapper holds a released buffer.
\<close>

definition protocol_inv :: "gpu_sphere_mapper \<times> world \<Rightarrow> bool" where
  "protocol_inv sw =
     (\<exists>st. protocol (events (snd sw)) (\<lambda>v. Untouched, 0) = Some st
        \<and> (\<forall>v. length (gl_buffers (snd sw)) < v \<longrightarrow> fst st v = Untouched)
        \<and> (m_tesselated (fst sw) \<longrightarrow>
             is_released (fst st (get_opengl_object (m_vertex_buffer (fst sw))))))"

section \<open>Concrete instances\<close>

text \<open>
  A device arithmetic, two devices and a world with an empty trace, to evaluate the model
  on. \<open>sample_mapper\<close> is a mapper as constructed, but with two slices each way.
\<close>

definition sample_fp :: device_fp where
  "sample_fp =
     \<lparr>fp_mul = (\<lambda>a b. a + b), fp_div = (\<lambda>a b. a - b),
      fp_cos = (\<lambda>a. a div 0x1000000), fp_sin = (\<lambda>a. a div 0x10000),
      fp_of_uint = (\<lambda>u. u * 0x2000000)\<rparr>"

definition sharing_device :: device where
  "sharing_device = \<lparr>device_name = ''gpu'', device_extensions = [''cl_khr_gl_sharing'']\<rparr>"

definition no_sharing_device :: device where
  "no_sharing_device = \<lparr>device_name = ''cpu'', device_extensions = []\<rparr>"

definition sample_world :: "device \<Rightarrow> (cl_call \<Rightarrow> cl_error option) \<Rightarrow> world" where
  "sample_world d f =
     \<lparr>default_device = d, arithmetic = sample_fp, fails = f, events = [], gl_buffers = [],
      array_buffer_binding = 0, GetBounds_bounds = (\<lambda>i. 0)\<rparr>"

definition no_failure :: "cl_call \<Rightarrow> cl_error option" where
  "no_failure c = None"

definition build_fails :: "cl_call \<Rightarrow> cl_error option" where
  "build_fails c = (if c = Build then Some (BuildError ''log'') else None)"

definition dispatch_fails :: "cl_call \<Rightarrow> cl_error option" where
  "dispatch_fails c =
     (case c of Enqueue_nd_range q n0 n1 \<Rightarrow> Some (OpenclError (- 5)) | _ \<Rightarrow> None)"

definition release_fails :: "cl_call \<Rightarrow> cl_error option" where
  "release_fails c =
     (case c of
        Enqueue_release q b \<Rightarrow>
          (if get_opengl_object b = 1 then Some (OpenclError (- 5)) else None)
      | _ \<Rightarrow> None)"

definition null_queue_fails :: "cl_call \<Rightarrow> cl_error option" where
  "null_queue_fails c = (if c = Get_context Null_queue then Some (OpenclError (- 36)) else None)"

definition sample_mapper :: gpu_sphere_mapper where
  "sample_mapper = (New 0)\<lparr>m_phi_slices := 2, m_theta_slices := 2\<rparr>"

section \<open>Work-items and their stores\<close>

lemma set_work_items:
  "set (work_items n0 n1) = {(g0, g1). g0 < n0 \<and> g1 < n1}"
proof (rule set_eqI, clarify)
  fix g0 g1 :: size_t
  show "(g0, g1) \<in> set (work_items n0 n1) \<longleftrightarrow> (g0, g1) \<in> {(g0, g1). g0 < n0 \<and> g1 < n1}"
  proof
    assume "(g0, g1) \<in> set (work_items n0 n1)"
    then obtain i j where ij: "i < unat n0" "j < unat n1"
      and g: "g0 = word_of_nat i" "g1 = word_of_nat j"
      by (auto simp: work_items_def)
    have "unat n0 < 2 ^ 64" "unat n1 < 2 ^ 64"
      using unsigned_less [of n0] unsigned_less [of n1] by simp_all
    with ij have "unat (word_of_nat i :: size_t) = i" "unat (word_of_nat j :: size_t) = j"
      by (simp_all add: unat_of_nat)
    with ij g show "(g0, g1) \<in> {(g0, g1). g0 < n0 \<and> g1 < n1}"
      by (simp add: word_less_nat_alt)
  next
    assume "(g0, g1) \<in> {(g0, g1). g0 < n0 \<and> g1 < n1}"
    then have "unat g0 < unat n0" "unat g1 < unat n1"
      by (simp_all add: word_less_nat_alt)
    then have "(word_of_nat (unat g0), word_of_nat (unat g1)) \<in> set (work_items n0 n1)"
      unfolding work_items_def by (auto intro!: image_eqI [where x = "(unat g0, unat g1)"])
    then show "(g0, g1) \<in> set (work_items n0 n1)"
      by simp
  qed
qed

section \<open>The index of a store\<close>

lemma unat_ucast_size_t_uint:
  fixes g :: size_t
  assumes "unat g < 2 ^ 32"
  shows "unat (ucast g :: uint) = unat g"
  using assms by (simp add: unsigned_ucast_eq take_bit_nat_eq_self)

lemma unat_write_index:
  fixes n g0 g1 :: size_t
  assumes n: "n \<le> 0x10000" and g0: "g0 < n" and g1: "g1 < n"
  shows "unat (write_index n (g0, g1)) = unat g0 * unat n + unat g1"
proof -
  have N: "unat n \<le> 65536" using n by (simp add: word_le_nat_alt)
  have a: "unat g0 < unat n" and b: "unat g1 < unat n"
    using g0 g1 by (simp_all add: word_less_nat_alt)
  have "Suc (unat g0) * unat n \<le> unat n * unat n"
    using a by (intro mult_le_mono1) simp
  also have "\<dots> \<le> 65536 * 65536" using N by (intro mult_le_mono) simp_all
  finally have bound: "unat g0 * unat n + unat g1 < 2 ^ 32" using b by simp
  have u0: "unat (ucast g0 :: uint) = unat g0" and u1: "unat (ucast g1 :: uint) = unat g1"
    and un: "unat (ucast n :: uint) = unat n"
    using a b N by (simp_all add: unat_ucast_size_t_uint)
  have "unat (write_index n (g0, g1)) = (unat g0 * unat n + unat g1) mod 2 ^ 32"
    by (simp add: write_index_def unat_word_ariths u0 u1 un mod_simps)
  with bound show ?thesis by simp
qed

lemma unat_vertex_count_of_square:
  fixes n :: size_t
  assumes n: "n \<le> 0x10000"
  shows "unat (vertex_count_of n n) = unat n * unat n"
proof -
  have N: "unat n \<le> 65536" using n by (simp add: word_le_nat_alt)
  have "unat n * unat n \<le> 65536 * 65536" using N by (intro mult_le_mono) simp_all
  then have "unat n * unat n < 2 ^ 64" by simp
  then show ?thesis by (simp add: vertex_count_of_def unat_word_ariths)
qed

lemma square_index_in_range:
  fixes n g0 g1 :: size_t
  assumes n: "n \<le> 0x10000" and g0: "g0 < n" and g1: "g1 < n"
  shows "unat (write_index n (g0, g1)) < unat (vertex_count_of n n)"
proof -
  have a: "unat g0 < unat n" and b: "unat g1 < unat n"
    using g0 g1 by (simp_all add: word_less_nat_alt)
  have "unat g0 * unat n + unat g1 < Suc (unat g0) * unat n" using b by simp
  also have "\<dots> \<le> unat n * unat n" using a by (intro mult_le_mono1) simp
  finally show ?thesis
    by (simp add: unat_write_index [OF n g0 g1] unat_vertex_count_of_square [OF n])
qed

lemma square_index_inj:
  fixes n :: size_t
  assumes n: "n \<le> 0x10000"
  shows "inj_on (\<lambda>g. unat (write_index n g)) (set (work_items n n))"
proof (rule inj_onI, clarify)
  fix g0 g1 h0 h1 :: size_t
  assume g: "(g0, g1) \<in> set (work_items n n)" and h: "(h0, h1) \<in> set (work_items n n)"
    and eq: "unat (write_index n (g0, g1)) = unat (write_index n (h0, h1))"
  from g h have lt: "g0 < n" "g1 < n" "h0 < n" "h1 < n"
    by (simp_all add: set_work_items)
  then have b: "unat g1 < unat n" "unat h1 < unat n"
    by (simp_all add: word_less_nat_alt)
  from eq have e: "unat g0 * unat n + unat g1 = unat h0 * unat n + unat h1"
    by (simp add: unat_write_index [OF n] lt)
  from arg_cong [OF e, of "\<lambda>k. k div unat n"] b have "unat g0 = unat h0" by simp
  moreover from arg_cong [OF e, of "\<lambda>k. k mod unat n"] b have "unat g1 = unat h1" by simp
  ultimately show "g0 = h0 \<and> g1 = h1" by (simp add: word_unat_eq_iff)
qed

lemma square_index_surj:
  fixes n :: size_t
  assumes n: "n \<le> 0x10000" and k: "k < unat (vertex_count_of n n)"
  shows "k \<in> (\<lambda>g. unat (write_index n g)) ` set (work_items n n)"
proof -
  let ?N = "unat n"
  from k have kk: "k < ?N * ?N" by (simp add: unat_vertex_count_of_square [OF n])
  then have pos: "0 < ?N" by (cases "?N = 0") simp_all
  have d: "k div ?N < ?N" using kk pos by (simp add: less_mult_imp_div_less)
  have m: "k mod ?N < ?N" using pos by simp
  have N64: "?N < 2 ^ 64" using unsigned_less [of n] by simp
  let ?g0 = "word_of_nat (k div ?N) :: size_t" and ?g1 = "word_of_nat (k mod ?N) :: size_t"
  have "k div ?N < 2 ^ 64" "k mod ?N < 2 ^ 64"
    using d m N64 by linarith+
  then have u: "unat ?g0 = k div ?N" "unat ?g1 = k mod ?N"
    by (simp_all add: unat_of_nat)
  then have lt: "?g0 < n" "?g1 < n" using d m by (simp_all add: word_less_nat_alt)
  have "unat (write_index n (?g0, ?g1)) = k"
    by (simp add: unat_write_index [OF n lt] u)
  moreover have "(?g0, ?g1) \<in> set (work_items n n)" using lt by (simp add: set_work_items)
  ultimately show ?thesis by (metis (mono_tags, lifting) image_eqI)
qed

lemma square_index_bij:
  fixes n :: size_t
  assumes n: "n \<le> 0x10000"
  shows "bij_betw (\<lambda>g. unat (write_index n g)) (set (work_items n n))
           {0..<unat (vertex_count_of n n)}"
  unfolding bij_betw_def
proof
  show "inj_on (\<lambda>g. unat (write_index n g)) (set (work_items n n))"
    by (rule square_index_inj [OF n])
  show "(\<lambda>g. unat (write_index n g)) ` set (work_items n n) = {0..<unat (vertex_count_of n n)}"
  proof (rule set_eqI)
    fix k
    show "k \<in> (\<lambda>g. unat (write_index n g)) ` set (work_items n n)
            \<longleftrightarrow> k \<in> {0..<unat (vertex_count_of n n)}"
    proof
      assume "k \<in> (\<lambda>g. unat (write_index n g)) ` set (work_items n n)"
      then obtain g0 g1 where "(g0, g1) \<in> set (work_items n n)"
        and "k = unat (write_index n (g0, g1))" by auto
      then show "k \<in> {0..<unat (vertex_count_of n n)}"
        using square_index_in_range [OF n, of g0 g1] by (simp add: set_work_items)
    next
      assume "k \<in> {0..<unat (vertex_count_of n n)}"
      then show "k \<in> (\<lambda>g. unat (write_index n g)) ` set (work_items n n)"
        using square_index_surj [OF n] by simp
    qed
  qed
qed

lemma work_items_3_2: "work_items 3 2 = [(0, 0), (0, 1), (1, 0), (1, 1), (2, 0), (2, 1)]"
  by (simp add: work_items_def upt_rec)

lemma work_items_2_3: "work_items 2 3 = [(0, 0), (0, 1), (0, 2), (1, 0), (1, 1), (1, 2)]"
  by (simp add: work_items_def upt_rec)

lemma work_items_2_2: "work_items 2 2 = [(0, 0), (0, 1), (1, 0), (1, 1)]"
  by (simp add: work_items_def upt_rec)

text \<open>
  C2, as amended. When \<open>phi_slices = theta_slices = n\<close> and \<open>n\<close> is at most \<open>65536\<close> (so that
  the kernel's 32-bit index does not wrap), every store of the dispatch has its index
  below \<open>phi_slices * theta_slices\<close>, and the index is a bijection from the work-items onto
  the cells of the buffer. For the slice counts 3 and 2 a work-item stores at or beyond
  \<open>phi_slices * theta_slices\<close>; for the slice counts 2 and 3 two work-items store at the
  same index and one cell of the buffer is stored by no work-item.
\<close>

theorem square_index_bijection:
  fixes n :: size_t
  assumes "n \<le> 0x10000"
  shows "(\<forall>g \<in> set (work_items n n). unat (write_index n g) < unat (vertex_count_of n n))
       \<and> bij_betw (\<lambda>g. unat (write_index n g)) (set (work_items n n))
            {0..<unat (vertex_count_of n n)}
       \<and> (\<exists>g \<in> set (work_items 3 2). unat (vertex_count_of 3 2) \<le> unat (write_index 3 g))
       \<and> (\<exists>g \<in> set (work_items 2 3). \<exists>g' \<in> set (work_items 2 3).
             g \<noteq> g' \<and> write_index 2 g = write_index 2 g')
       \<and> (\<exists>i < unat (vertex_count_of 2 3).
             \<forall>g \<in> set (work_items 2 3). unat (write_index 2 g) \<noteq> i)"
proof (intro conjI)
  show "\<forall>g \<in> set (work_items n n). unat (write_index n g) < unat (vertex_count_of n n)"
    using square_index_in_range [OF assms] by (auto simp: set_work_items)
  show "bij_betw (\<lambda>g. unat (write_index n g)) (set (work_items n n))
          {0..<unat (vertex_count_of n n)}"
    by (rule square_index_bij [OF assms])
  show "\<exists>g \<in> set (work_items 3 2). unat (vertex_count_of 3 2) \<le> unat (write_index 3 g)"
    by (simp add: work_items_3_2 write_index_def vertex_count_of_def)
  show "\<exists>g \<in> set (work_items 2 3). \<exists>g' \<in> set (work_items 2 3).
          g \<noteq> g' \<and> write_index 2 g = write_index 2 g'"
    by (simp add: work_items_2_3 write_index_def)
  show "\<exists>i < unat (vertex_count_of 2 3).
          \<forall>g \<in> set (work_items 2 3). unat (write_index 2 g) \<noteq> i"
    by (rule exI [of _ 5]) (simp add: work_items_2_3 write_index_def vertex_count_of_def)
qed

theorem square_index_bijection_witness:
  "(2 :: size_t) \<le> 0x10000
   \<and> map (\<lambda>g. unat (write_index 2 g)) (work_items 2 2) = [0, 1, 2, 3]
   \<and> unat (vertex_count_of 2 2) = 4
   \<and> bij_betw (\<lambda>g. unat (write_index 2 g)) (set (work_items 2 2))
        {0..<unat (vertex_count_of 2 2)}"
  using square_index_bijection [of 2]
  by (simp add: work_items_2_2 write_index_def vertex_count_of_def)

text \<open>
  C2 as stated fails: with \<open>phi_slices = theta_slices = 65537\<close> the index wraps, and the
  work-items \<open>(65536, 0)\<close> and \<open>(0, 65536)\<close> both store at index \<open>65536\<close>.
\<close>

theorem square_index_wraps:
  "(65536, 0) \<in> set (work_items 65537 65537) \<and> (0, 65536) \<in> set (work_items 65537 65537)
   \<and> write_index 65537 (65536, 0) = write_index 65537 (0, 65536)
   \<and> \<not> bij_betw (\<lambda>g. unat (write_index 65537 g)) (set (work_items 65537 65537))
          {0..<unat (vertex_count_of 65537 65537)}"
proof -
  have a: "(65536, 0) \<in> set (work_items 65537 65537)"
    and b: "(0, 65536) \<in> set (work_items 65537 65537)"
    by (simp_all add: set_work_items)
  have e: "write_index 65537 (65536, 0) = write_index 65537 (0, 65536)"
    by (simp add: write_index_def)
  have "\<not> inj_on (\<lambda>g. unat (write_index 65537 g)) (set (work_items 65537 65537))"
  proof
    assume "inj_on (\<lambda>g. unat (write_index 65537 g)) (set (work_items 65537 65537))"
    from inj_onD [OF this _ a b] e show False by simp
  qed
  then have "\<not> bij_betw (\<lambda>g. unat (write_index 65537 g)) (set (work_items 65537 65537))
                 {0..<unat (vertex_count_of 65537 65537)}"
    by (auto simp: bij_betw_def)
  with a b e show ?thesis by simp
qed

section \<open>\<open>GetBounds\<close>\<close>

lemma float_to_double_5: "float_to_double 0x40A00000 = 0x4014000000000000"
  by (simp add: float_to_double_def Let_def bit_iff_odd drop_bit_eq_div take_bit_eq_mod)

lemma float_to_double_minus_5: "float_to_double (float_neg 0x40A00000) = 0xC014000000000000"
  by (simp add: float_to_double_def float_neg_def Let_def bit_iff_odd drop_bit_eq_div
      take_bit_eq_mod)

lemma float_to_double_1: "float_to_double 0x3F800000 = 0x3FF0000000000000"
  by (simp add: float_to_double_def Let_def bit_iff_odd drop_bit_eq_div take_bit_eq_mod)

lemma float_to_double_minus_1: "float_to_double (float_neg 0x3F800000) = 0xBFF0000000000000"
  by (simp add: float_to_double_def float_neg_def Let_def bit_iff_odd drop_bit_eq_div
      take_bit_eq_mod)

lemma float_value_5: "float_value 0x40A00000 = 5"
  by (simp add: float_value_def Let_def bit_iff_odd drop_bit_eq_div take_bit_eq_mod)

lemma double_value_5: "double_value 0x4014000000000000 = 5"
  by (simp add: double_value_def Let_def bit_iff_odd drop_bit_eq_div take_bit_eq_mod)

lemma double_value_minus_5: "double_value 0xC014000000000000 = - 5"
  by (simp add: double_value_def Let_def bit_iff_odd drop_bit_eq_div take_bit_eq_mod)

lemma highest_bit_bounds: "0 < m \<Longrightarrow> 2 ^ highest_bit m \<le> m \<and> m < 2 ^ Suc (highest_bit m)"
proof (induction m rule: highest_bit.induct)
  case (1 n)
  show ?case
  proof (cases "n < 2")
    case True
    with "1.prems" have "n = 1" by simp
    then show ?thesis by (simp add: highest_bit.simps [of "Suc 0"])
  next
    case False
    then have "0 < n div 2" by simp
    with "1.IH" False have "2 ^ highest_bit (n div 2) \<le> n div 2"
      "n div 2 < 2 ^ Suc (highest_bit (n div 2))" by simp_all
    moreover have "highest_bit n = Suc (highest_bit (n div 2))"
      using False by (simp add: highest_bit.simps [of n])
    ultimately show ?thesis by simp linarith
  qed
qed

lemma decode_double:
  fixes s E M :: nat
  assumes "s \<le> 1" "E < 2048" "M < 2 ^ 52"
  defines "d \<equiv> (word_of_nat (s * 2 ^ 63 + E * 2 ^ 52 + M) :: float64)"
  shows "bit d 63 \<longleftrightarrow> s = 1"
    and "unat (take_bit 11 (drop_bit 52 d)) = E"
    and "unat (take_bit 52 d) = M"
proof -
  let ?n = "s * 2 ^ 63 + E * 2 ^ 52 + M"
  have "E * 2 ^ 52 + M < 2048 * 2 ^ 52" using assms(2,3) by simp
  then have lo: "E * 2 ^ 52 + M < 2 ^ 63" by simp
  with assms(1) have n64: "?n < 2 ^ 64" by simp
  have "unat d = ?n mod 2 ^ LENGTH(64)" unfolding d_def by (rule unat_of_nat)
  with n64 have u: "unat d = ?n" by simp
  have n1: "?n = M + (s * 2 ^ 11 + E) * 2 ^ 52" by simp
  have n2: "?n = (E * 2 ^ 52 + M) + s * 2 ^ 63" by simp
  have m: "?n mod 2 ^ 52 = M" using assms(3) by (simp only: n1 mod_mult_self1) simp
  have dv: "?n div 2 ^ 52 = s * 2 ^ 11 + E" using assms(3) by (simp only: n1 div_mult_self1) simp
  have d63: "?n div 2 ^ 63 = s" using lo by (simp only: n2 div_mult_self1) simp
  have "unat (take_bit 52 d) = take_bit 52 (unat d)"
    by (rule unsigned_take_bit_eq)
  then have "unat (take_bit 52 d) = unat d mod 2 ^ 52"
    by (simp only: take_bit_eq_mod)
  then show "unat (take_bit 52 d) = M" by (simp only: u m)
  have "unat (drop_bit 52 d) = drop_bit 52 (take_bit LENGTH(64) (unat d))"
    by (rule unsigned_drop_bit_eq)
  also have "take_bit LENGTH(64) (unat d) = unat d"
    by (rule take_bit_nat_eq_self) (rule unsigned_less)
  finally have "unat (drop_bit 52 d) = unat d div 2 ^ 52"
    by (simp only: drop_bit_eq_div)
  then have "unat (drop_bit 52 d) = s * 2 ^ 11 + E" by (simp only: u dv)
  moreover have "unat (take_bit 11 (drop_bit 52 d)) = take_bit 11 (unat (drop_bit 52 d))"
    by (rule unsigned_take_bit_eq)
  then have "unat (take_bit 11 (drop_bit 52 d)) = unat (drop_bit 52 d) mod 2 ^ 11"
    by (simp only: take_bit_eq_mod)
  ultimately show "unat (take_bit 11 (drop_bit 52 d)) = E"
    using assms(2) by simp
  have "bit d 63 \<longleftrightarrow> bit (unat d) 63"
    by (simp add: bit_unsigned_iff)
  also have "\<dots> \<longleftrightarrow> odd (unat d div 2 ^ 63)"
    by (rule bit_iff_odd)
  also have "\<dots> \<longleftrightarrow> odd s" by (simp only: u d63)
  also have "\<dots> \<longleftrightarrow> s = 1" using assms(1) by (cases "s = 0") auto
  finally show "bit d 63 \<longleftrightarrow> s = 1" .
qed


lemma float_fields_bounds:
  "unat (take_bit 8 (drop_bit 23 f)) < 256" "unat (take_bit 23 f) < 2 ^ 23" for f :: float32
proof -
  have "unat (take_bit 8 (drop_bit 23 f)) = take_bit 8 (unat (drop_bit 23 f))"
    by (rule unsigned_take_bit_eq)
  then show "unat (take_bit 8 (drop_bit 23 f)) < 256"
    by (simp only: take_bit_eq_mod) simp
  have "unat (take_bit 23 f) = take_bit 23 (unat f)"
    by (rule unsigned_take_bit_eq)
  then show "unat (take_bit 23 f) < 2 ^ 23"
    by (simp only: take_bit_eq_mod) simp
qed

lemma normal_scale:
  "real (2 ^ 52 + m * 2 ^ 29) * 2 ^ (e + 896) / 2 ^ 1075 = real (2 ^ 23 + m) * 2 ^ e / 2 ^ 150"
proof -
  have a: "real (2 ^ 52 + m * 2 ^ 29) = real (2 ^ 23 + m) * 2 ^ 29"
    by (simp add: algebra_simps)
  have b: "(2 :: real) ^ (e + 896) = 2 ^ e * 2 ^ 896"
    by (rule power_add)
  have c: "(2 :: real) ^ 1075 = 2 ^ 150 * (2 ^ 29 * 2 ^ 896)"
    by (simp only: power_add [symmetric]) simp
  show ?thesis
    by (simp only: a b c) (simp add: field_simps)
qed

lemma subnormal_scale:
  assumes "2 ^ h \<le> m" and "h \<le> 22"
  shows "real (2 ^ 52 + (m - 2 ^ h) * 2 ^ (52 - h)) * 2 ^ (h + 874) / 2 ^ 1075
       = real m * 2 ^ 1 / 2 ^ 150"
proof -
  have "(2 :: nat) ^ 52 = 2 ^ h * 2 ^ (52 - h)"
    using assms(2) by (simp only: power_add [symmetric]) simp
  then have "2 ^ 52 + (m - 2 ^ h) * 2 ^ (52 - h) = (2 ^ h + (m - 2 ^ h)) * 2 ^ (52 - h)"
    by (simp only: distrib_right)
  also have "2 ^ h + (m - 2 ^ h) = m" using assms(1) by simp
  finally have a: "real (2 ^ 52 + (m - 2 ^ h) * 2 ^ (52 - h)) = real m * 2 ^ (52 - h)"
    by simp
  have "(2 :: real) ^ (52 - h) * 2 ^ (h + 874) = 2 ^ ((52 - h) + (h + 874))"
    by (rule power_add [symmetric])
  also have "(52 - h) + (h + 874) = 926" using assms(2) by simp
  finally have b: "(2 :: real) ^ (52 - h) * 2 ^ (h + 874) = 2 ^ 926" .
  have c: "(2 :: real) ^ 1075 = 2 ^ 926 * 2 ^ 149"
    by (simp only: power_add [symmetric]) simp
  have d: "(2 :: real) ^ 150 = 2 ^ 1 * 2 ^ 149"
    by (simp only: power_add [symmetric]) simp
  have "real m * 2 ^ (52 - h) * 2 ^ (h + 874) / 2 ^ 1075 = real m * 2 ^ 926 / 2 ^ 1075"
    by (simp only: mult.assoc b)
  also have "\<dots> = real m * 2 ^ 1 / 2 ^ 150"
    by (simp only: c d) (simp add: field_simps)
  finally show ?thesis by (simp only: a)
qed

lemma double_value_float_to_double:
  assumes "is_finite f"
  shows "double_value (float_to_double f) = float_value f"
proof -
  let ?s = "if bit f 31 then 1 else 0 :: nat"
  let ?e = "unat (take_bit 8 (drop_bit 23 f))"
  let ?m = "unat (take_bit 23 f)"
  let ?sr = "if bit f 31 then - 1 else 1 :: real"
  have s1: "?s \<le> 1" by simp
  have sr: "(if ?s = 1 then - 1 else 1 :: real) = ?sr" by simp
  note b = float_fields_bounds [of f]
  from assms have e255: "?e \<noteq> 255" by (simp add: is_finite_def)
  consider (zero) "?e = 0" "?m = 0" | (subnormal) "?e = 0" "0 < ?m" | (normal) "0 < ?e"
    by (cases "?e = 0"; cases "?m = 0") auto
  then show ?thesis
  proof cases
    case zero
    have d: "float_to_double f = word_of_nat (?s * 2 ^ 63 + 0 * 2 ^ 52 + 0)"
      using zero by (simp add: float_to_double_def Let_def)
    note dec = decode_double [OF s1, of 0 0, simplified]
    show ?thesis
      using zero dec
      by (simp add: d double_value_def float_value_def Let_def)
  next
    case subnormal
    let ?h = "highest_bit ?m"
    from highest_bit_bounds [OF subnormal(2)]
    have h: "2 ^ ?h \<le> ?m" "?m < 2 ^ Suc ?h" by simp_all
    have h22: "?h \<le> 22"
    proof (rule ccontr)
      assume "\<not> ?h \<le> 22"
      then have "23 \<le> ?h" by simp
      then have "(2 :: nat) ^ 23 \<le> 2 ^ ?h" by (rule power_increasing) simp
      with h(1) b(2) show False by simp
    qed
    let ?E = "?h + 874" and ?M = "(?m - 2 ^ ?h) * 2 ^ (52 - ?h)"
    have E: "?E < 2048" using h22 by simp
    have "?m - 2 ^ ?h < 2 ^ ?h" using h by simp
    then have "?M < 2 ^ ?h * 2 ^ (52 - ?h)" by simp
    also have "(2 :: nat) ^ ?h * 2 ^ (52 - ?h) = 2 ^ 52"
      using h22 by (simp only: power_add [symmetric]) simp
    finally have M: "?M < 2 ^ 52" .
    have d: "float_to_double f = word_of_nat (?s * 2 ^ 63 + ?E * 2 ^ 52 + ?M)"
      using subnormal by (simp add: float_to_double_def Let_def)
    note dec = decode_double [OF s1 E M]
    have "double_value (float_to_double f)
        = ?sr * (real (2 ^ 52 + ?M) * 2 ^ ?E / 2 ^ 1075)"
      unfolding d double_value_def Let_def dec by (simp add: max_def)
    also have "\<dots> = ?sr * (real ?m * 2 ^ 1 / 2 ^ 150)"
      by (simp only: subnormal_scale [OF h(1) h22])
    also have "\<dots> = float_value f"
      using subnormal by (simp add: float_value_def Let_def)
    finally show ?thesis .
  next
    case normal
    with e255 b(1) have e: "?e < 255" by simp
    let ?E = "?e + 896" and ?M = "?m * 2 ^ 29"
    have E: "?E < 2048" using e by simp
    have "?M < 2 ^ 23 * 2 ^ 29" using b(2) by simp
    then have M: "?M < 2 ^ 52" by simp
    have d: "float_to_double f = word_of_nat (?s * 2 ^ 63 + ?E * 2 ^ 52 + ?M)"
      using normal e255 by (simp add: float_to_double_def Let_def)
    note dec = decode_double [OF s1 E M]
    have "double_value (float_to_double f)
        = ?sr * (real (2 ^ 52 + ?M) * 2 ^ ?E / 2 ^ 1075)"
      unfolding d double_value_def Let_def dec by (simp add: max_def)
    also have "\<dots> = ?sr * (real (2 ^ 23 + ?m) * 2 ^ ?e / 2 ^ 150)"
      by (simp only: normal_scale)
    also have "\<dots> = float_value f"
      using normal by (simp add: float_value_def Let_def max_def)
    finally show ?thesis .
  qed
qed

lemma float_neg_fields:
  "bit (float_neg f) 31 \<longleftrightarrow> \<not> bit f 31"
  "take_bit 8 (drop_bit 23 (float_neg f)) = take_bit 8 (drop_bit 23 f)"
  "take_bit 23 (float_neg f) = take_bit 23 f"
proof -
  show "bit (float_neg f) 31 \<longleftrightarrow> \<not> bit f 31"
    by (simp add: float_neg_def bit_xor_iff bit_numeral_word_iff)
  show "take_bit 8 (drop_bit 23 (float_neg f)) = take_bit 8 (drop_bit 23 f)"
    by (rule bit_word_eqI)
      (auto simp: float_neg_def bit_take_bit_iff bit_drop_bit_eq bit_xor_iff bit_numeral_word_iff)
  show "take_bit 23 (float_neg f) = take_bit 23 f"
    by (rule bit_word_eqI)
      (auto simp: float_neg_def bit_take_bit_iff bit_xor_iff bit_numeral_word_iff)
qed

lemma float_value_float_neg: "float_value (float_neg f) = - float_value f"
  by (simp add: float_value_def float_neg_fields Let_def)

lemma is_finite_float_neg: "is_finite (float_neg f) = is_finite f"
  by (simp add: is_finite_def float_neg_fields)

lemma upt_6: "[0..<6] = [0, 1, 2, 3, 4, 5]"
  by (simp add: upt_rec)

lemma read_bounds_GetBounds:
  "read_bounds (snd (GetBounds this w)) (fst (GetBounds this w)) =
     [float_to_double (float_neg (m_radius this)), float_to_double (m_radius this),
      float_to_double (float_neg (m_radius this)), float_to_double (m_radius this),
      float_to_double (float_neg (m_radius this)), float_to_double (m_radius this)]"
  by (simp add: GetBounds_def read_bounds_def read_double_def upt_6)

lemma map_double_value_bounds:
  assumes "is_finite r"
  shows "map double_value
           [float_to_double (float_neg r), float_to_double r,
            float_to_double (float_neg r), float_to_double r,
            float_to_double (float_neg r), float_to_double r] =
         [- float_value r, float_value r, - float_value r, float_value r,
          - float_value r, float_value r]"
proof -
  from assms have "is_finite (float_neg r)" by (simp only: is_finite_float_neg)
  then have "double_value (float_to_double (float_neg r)) = - float_value r"
    by (simp only: double_value_float_to_double float_value_float_neg)
  moreover from assms have "double_value (float_to_double r) = float_value r"
    by (rule double_value_float_to_double)
  ultimately show ?thesis by simp
qed

lemma is_finite_5: "is_finite 0x40A00000"
  by (simp add: is_finite_def drop_bit_eq_div take_bit_eq_mod)

text \<open>
  C6. The six bounds read through the result of \<open>GetBounds\<close> are
  \<open>[-radius, radius, -radius, radius, -radius, radius]\<close> (each a \<open>float\<close> widened to
  \<open>double\<close>), whatever the rest of the object and the world are: two objects with the
  same radius give the same bounds, tesselated or not. For a finite radius the values
  of the six doubles are exactly minus the value of the radius and the value of the
  radius. For the radius \<open>5.0f\<close>, which the constructor sets, they are the doubles
  \<open>-5.0\<close> (\<open>0xC014000000000000\<close>) and \<open>5.0\<close> (\<open>0x4014000000000000\<close>), of values
  \<open>-5\<close> and \<open>5\<close>.
\<close>

theorem GetBounds_cube:
  "read_bounds (snd (GetBounds this w)) (fst (GetBounds this w)) =
     [float_to_double (float_neg (m_radius this)), float_to_double (m_radius this),
      float_to_double (float_neg (m_radius this)), float_to_double (m_radius this),
      float_to_double (float_neg (m_radius this)), float_to_double (m_radius this)]
   \<and> (m_radius this = m_radius that \<longrightarrow>
        read_bounds (snd (GetBounds this w)) (fst (GetBounds this w)) =
        read_bounds (snd (GetBounds that w')) (fst (GetBounds that w')))
   \<and> (is_finite (m_radius this) \<longrightarrow>
        map double_value (read_bounds (snd (GetBounds this w)) (fst (GetBounds this w))) =
          [- float_value (m_radius this), float_value (m_radius this),
           - float_value (m_radius this), float_value (m_radius this),
           - float_value (m_radius this), float_value (m_radius this)])
   \<and> (m_radius this = 0x40A00000 \<longrightarrow>
        read_bounds (snd (GetBounds this w)) (fst (GetBounds this w)) =
          [0xC014000000000000, 0x4014000000000000, 0xC014000000000000,
           0x4014000000000000, 0xC014000000000000, 0x4014000000000000]
        \<and> map double_value (read_bounds (snd (GetBounds this w)) (fst (GetBounds this w))) =
          [- 5, 5, - 5, 5, - 5, 5])
   \<and> m_radius (New indeterminate) = 0x40A00000
   \<and> float_value (m_radius (New indeterminate)) = 5"
proof -
  let ?b = "read_bounds (snd (GetBounds this w)) (fst (GetBounds this w))"
  have finite: "is_finite (m_radius this) \<Longrightarrow>
      map double_value ?b =
          [- float_value (m_radius this), float_value (m_radius this),
           - float_value (m_radius this), float_value (m_radius this),
           - float_value (m_radius this), float_value (m_radius this)]"
    by (simp only: read_bounds_GetBounds map_double_value_bounds)
  have five: "map double_value ?b = [- 5, 5, - 5, 5, - 5, 5]" if "m_radius this = 0x40A00000"
    using finite is_finite_5 by (simp only: that float_value_5)
  have same: "read_bounds (snd (GetBounds this w)) (fst (GetBounds this w)) =
        read_bounds (snd (GetBounds that w')) (fst (GetBounds that w'))"
    if "m_radius this = m_radius that"
    by (simp only: read_bounds_GetBounds that)
  have bits: "?b = [0xC014000000000000, 0x4014000000000000, 0xC014000000000000,
           0x4014000000000000, 0xC014000000000000, 0x4014000000000000]"
    if "m_radius this = 0x40A00000"
    by (simp only: read_bounds_GetBounds that float_to_double_5 float_to_double_minus_5)
  have new: "m_radius (New indeterminate) = 0x40A00000"
    by (simp add: New_def)
  have "float_value (m_radius (New indeterminate)) = 5"
    by (simp only: new float_value_5)
  with finite five same bits new read_bounds_GetBounds [of this w] show ?thesis
    by blast
qed

theorem GetBounds_cube_witness:
  "m_radius (New 0) = m_radius ((New 7)\<lparr>m_tesselated := True\<rparr>) \<and>
   m_radius (New 0) = 0x40A00000 \<and>
   is_finite (m_radius (New 0)) \<and>
   read_bounds (snd (GetBounds (New 0) (sample_world sharing_device no_failure)))
               (fst (GetBounds (New 0) (sample_world sharing_device no_failure))) =
   read_bounds (snd (GetBounds ((New 7)\<lparr>m_tesselated := True\<rparr>)
                      (sample_world no_sharing_device no_failure)))
               (fst (GetBounds ((New 7)\<lparr>m_tesselated := True\<rparr>)
                      (sample_world no_sharing_device no_failure))) \<and>
   read_bounds (snd (GetBounds (New 0) (sample_world sharing_device no_failure)))
               (fst (GetBounds (New 0) (sample_world sharing_device no_failure))) =
     [0xC014000000000000, 0x4014000000000000, 0xC014000000000000,
      0x4014000000000000, 0xC014000000000000, 0x4014000000000000] \<and>
   map double_value
     (read_bounds (snd (GetBounds (New 0) (sample_world sharing_device no_failure)))
                  (fst (GetBounds (New 0) (sample_world sharing_device no_failure)))) =
     [- 5, 5, - 5, 5, - 5, 5]"
proof -
  have r: "m_radius (New 0) = 0x40A00000"
    "m_radius (New 0) = m_radius ((New 7)\<lparr>m_tesselated := True\<rparr>)"
    by (simp_all add: New_def)
  have f: "is_finite (m_radius (New 0))"
    by (simp only: r(1) is_finite_5)
  from GetBounds_cube [of "New 0" "sample_world sharing_device no_failure"
      "(New 7)\<lparr>m_tesselated := True\<rparr>" "sample_world no_sharing_device no_failure" 0] r f
  show ?thesis by blast
qed

text \<open>
  C10. Every call of \<open>GetBounds\<close>, on any object and in any state of the process, returns
  the same address, that of the one static array, and overwrites its six entries. So
  after a call on \<open>a\<close> and then a call on \<open>b\<close>, the bounds read through the pointer that
  the call on \<open>a\<close> returned are those of \<open>b\<close>.
\<close>

theorem GetBounds_static_array:
  "fst (GetBounds a w) = fst (GetBounds b w')
   \<and> fst (GetBounds a w) = Ptr_GetBounds_bounds 0
   \<and> map (GetBounds_bounds (snd (GetBounds a w))) [0..<6] =
       [float_to_double (float_neg (m_radius a)), float_to_double (m_radius a),
        float_to_double (float_neg (m_radius a)), float_to_double (m_radius a),
        float_to_double (float_neg (m_radius a)), float_to_double (m_radius a)]
   \<and> read_bounds (snd (GetBounds b (snd (GetBounds a w)))) (fst (GetBounds a w)) =
       [float_to_double (float_neg (m_radius b)), float_to_double (m_radius b),
        float_to_double (float_neg (m_radius b)), float_to_double (m_radius b),
        float_to_double (float_neg (m_radius b)), float_to_double (m_radius b)]"
  by (simp add: GetBounds_def read_bounds_def read_double_def upt_6)

theorem GetBounds_static_array_witness:
  "read_bounds (snd (GetBounds (New 0) (sample_world sharing_device no_failure)))
     (fst (GetBounds (New 0) (sample_world sharing_device no_failure))) =
     [0xC014000000000000, 0x4014000000000000, 0xC014000000000000,
      0x4014000000000000, 0xC014000000000000, 0x4014000000000000]
   \<and> read_bounds
        (snd (GetBounds ((New 0)\<lparr>m_radius := 0x3F800000\<rparr>)
               (snd (GetBounds (New 0) (sample_world sharing_device no_failure)))))
        (fst (GetBounds (New 0) (sample_world sharing_device no_failure))) =
     [0xBFF0000000000000, 0x3FF0000000000000, 0xBFF0000000000000,
      0x3FF0000000000000, 0xBFF0000000000000, 0x3FF0000000000000]"
proof -
  let ?w = "sample_world sharing_device no_failure"
  let ?b = "(New 0)\<lparr>m_radius := 0x3F800000\<rparr>"
  have "read_bounds (snd (GetBounds ?b (snd (GetBounds (New 0) ?w)))) (fst (GetBounds (New 0) ?w)) =
       [float_to_double (float_neg (m_radius ?b)), float_to_double (m_radius ?b),
        float_to_double (float_neg (m_radius ?b)), float_to_double (m_radius ?b),
        float_to_double (float_neg (m_radius ?b)), float_to_double (m_radius ?b)]"
    using GetBounds_static_array [of "New 0" ?w ?b ?w] by blast
  then have later: "read_bounds (snd (GetBounds ?b (snd (GetBounds (New 0) ?w))))
      (fst (GetBounds (New 0) ?w)) =
     [0xBFF0000000000000, 0x3FF0000000000000, 0xBFF0000000000000,
      0x3FF0000000000000, 0xBFF0000000000000, 0x3FF0000000000000]"
    by (simp add: float_to_double_1 float_to_double_minus_1)
  have "read_bounds (snd (GetBounds (New 0) ?w)) (fst (GetBounds (New 0) ?w)) =
     [0xC014000000000000, 0x4014000000000000, 0xC014000000000000,
      0x4014000000000000, 0xC014000000000000, 0x4014000000000000]"
    by (simp add: read_bounds_GetBounds New_def float_to_double_5 float_to_double_minus_5)
  with later show ?thesis by blast
qed

section \<open>Running the kernel\<close>

lemma store_float4_length:
  "store_float4 wr mem = Some cells' \<Longrightarrow> \<exists>cells. mem = Some cells \<and> length cells' = length cells"
  by (auto simp: store_float4_def split: option.splits if_splits)

lemma fold_store_float4_length:
  "fold store_float4 writes mem = Some cells' \<Longrightarrow>
     \<exists>cells. mem = Some cells \<and> length cells' = length cells"
proof (induction writes arbitrary: mem)
  case Nil
  then show ?case by simp
next
  case (Cons wr writes)
  from Cons.prems have "fold store_float4 writes (store_float4 wr mem) = Some cells'"
    by simp
  from Cons.IH [OF this] obtain cells1 where "store_float4 wr mem = Some cells1"
    and "length cells' = length cells1" by blast
  with store_float4_length [of wr mem cells1] show ?case by auto
qed

lemma run_kernel_length:
  "run_kernel writes cells = Some cells' \<Longrightarrow> length cells' = length cells"
  using fold_store_float4_length [of writes "Some cells" cells'] by (simp add: run_kernel_def)

lemma fold_store_float4_in_range:
  "\<forall>wr \<in> set writes. unat (fst wr) < length cells \<Longrightarrow>
     \<exists>cells'. fold store_float4 writes (Some cells) = Some cells'"
proof (induction writes arbitrary: cells)
  case Nil
  then show ?case by simp
next
  case (Cons wr writes)
  let ?cells1 = "cells[unat (fst wr) := Some (snd wr)]"
  from Cons.prems have "store_float4 wr (Some cells) = Some ?cells1"
    by (simp add: store_float4_def)
  moreover from Cons.prems have "\<forall>wr \<in> set writes. unat (fst wr) < length ?cells1"
    by simp
  from Cons.IH [OF this] obtain cells' where
    "fold store_float4 writes (Some ?cells1) = Some cells'" by blast
  ultimately show ?case by simp
qed

lemma run_kernel_in_range:
  "\<forall>wr \<in> set writes. unat (fst wr) < length cells \<Longrightarrow>
     \<exists>cells'. run_kernel writes cells = Some cells'"
  using fold_store_float4_in_range [of writes cells] by (simp add: run_kernel_def)

section \<open>Symbolic execution of the library calls\<close>

lemmas prog_defs = bind_def seq_def return_def emit_def lib_call_def

lemma execute_kernel_frame:
  assumes "execute_kernel k n0 n1 w = (out, w')"
  shows "events w' = events w \<and> fails w' = fails w \<and> default_device w' = default_device w
       \<and> arithmetic w' = arithmetic w \<and> array_buffer_binding w' = array_buffer_binding w
       \<and> GetBounds_bounds w' = GetBounds_bounds w
       \<and> length (gl_buffers w') = length (gl_buffers w)"
  using assms
  by (auto simp: execute_kernel_def set_cells_def Let_def split: option.splits if_splits)

lemma execute_kernel_last_buffer:
  assumes "execute_kernel k n0 n1 (w\<lparr>gl_buffers := bs @ [nb]\<rparr>) = (out, w')"
    and "arg_vertex_buffer k = Some (Opengl_buffer c (Suc (length bs)))"
  shows "gl_buffers w' = bs @ [nb\<lparr>buffer_cells := buffer_cells (last (gl_buffers w'))\<rparr>]
       \<and> length (buffer_cells (last (gl_buffers w'))) = length (buffer_cells nb)"
  using assms
  by (auto simp: execute_kernel_def set_cells_def cells_of_def get_opengl_object_def Let_def
      dest: run_kernel_length split: option.splits if_splits)

lemmas tesselate_sphere_defs =
  tesselate_sphere_def tesselate_events_def tesselate_kernel_def enqueue_nd_range_kernel_def
  opengl_enqueue_acquire_buffer_def opengl_enqueue_release_buffer_def
  GenBuffersARB_def BindBufferARB_def BufferDataARB_def
  execute_kernel_def set_cells_def cells_of_def get_opengl_object_def

lemma tesselate_sphere_returns:
  assumes "tesselate_sphere r p t q w = (Returns b, w')"
  shows "b = Opengl_buffer (get_context q) (Suc (length (gl_buffers w)))
       \<and> events w' = events w @ tesselate_events r p t q (Suc (length (gl_buffers w)))
       \<and> fails w' = fails w \<and> default_device w' = default_device w
       \<and> arithmetic w' = arithmetic w \<and> GetBounds_bounds w' = GetBounds_bounds w
       \<and> array_buffer_binding w' = 0
       \<and> length (gl_buffers w') = Suc (length (gl_buffers w))
       \<and> take (length (gl_buffers w)) (gl_buffers w') = gl_buffers w
       \<and> (0 \<le> sint (4 * 4 * (p * t) :: size_t) \<longrightarrow>
            buffer_bytes (gl_buffers w' ! length (gl_buffers w)) = 4 * 4 * (p * t)
            \<and> length (buffer_cells (gl_buffers w' ! length (gl_buffers w)))
                = unat (4 * 4 * (p * t) :: size_t) div 16)"
  using assms unfolding tesselate_sphere_defs
  by (auto simp: prog_defs Let_def nth_append dest: run_kernel_length
      split: option.splits if_splits prod.splits outcome.splits)

text \<open>Whatever the outcome, the events of a call are an initial part of those of a call
  that returns.\<close>

lemma tesselate_sphere_events:
  assumes "tesselate_sphere r p t q w = (out, w')"
  shows "fails w' = fails w \<and> default_device w' = default_device w
       \<and> arithmetic w' = arithmetic w \<and> GetBounds_bounds w' = GetBounds_bounds w
       \<and> (events w' = events w \<and> gl_buffers w' = gl_buffers w \<and> out \<noteq> Undefined_behaviour
             \<and> (\<forall>b. out \<noteq> Returns b)
           \<or> length (gl_buffers w') = Suc (length (gl_buffers w))
             \<and> take (length (gl_buffers w)) (gl_buffers w') = gl_buffers w
             \<and> (events w' = events w @ take 4 (tesselate_events r p t q (Suc (length (gl_buffers w))))
                   \<and> out \<noteq> Undefined_behaviour \<and> (\<forall>b. out \<noteq> Returns b)
                \<or> events w' = events w @ take 5 (tesselate_events r p t q (Suc (length (gl_buffers w))))
                   \<and> out \<noteq> Undefined_behaviour \<and> (\<forall>b. out \<noteq> Returns b)
                \<or> events w' = events w @ take 6 (tesselate_events r p t q (Suc (length (gl_buffers w))))
                   \<and> (\<forall>b. out \<noteq> Returns b)
                \<or> events w' = events w @ tesselate_events r p t q (Suc (length (gl_buffers w)))
                   \<and> out = Returns (Opengl_buffer (get_context q) (Suc (length (gl_buffers w))))))"
  using assms unfolding tesselate_sphere_defs
  by (auto simp: prog_defs Let_def nth_append dest: run_kernel_length
      split: option.splits if_splits prod.splits outcome.splits)

section \<open>The blocks of \<open>Render\<close>\<close>

lemmas member_defs = in_world_def assign_def

lemma Initialize_effect:
  assumes "Initialize (this, w) = (out, (this1, w1))"
  shows "gl_buffers w1 = gl_buffers w \<and> fails w1 = fails w
       \<and> default_device w1 = default_device w \<and> arithmetic w1 = arithmetic w
       \<and> GetBounds_bounds w1 = GetBounds_bounds w
       \<and> array_buffer_binding w1 = array_buffer_binding w
       \<and> m_tesselated this1 = m_tesselated this \<and> m_vertex_buffer this1 = m_vertex_buffer this
       \<and> m_radius this1 = m_radius this \<and> m_phi_slices this1 = m_phi_slices this
       \<and> m_theta_slices this1 = m_theta_slices this
       \<and> m_vertex_count this1 = m_vertex_count this
       \<and> m_initialized this1 = m_initialized this
       \<and> out \<noteq> Undefined_behaviour
       \<and> (\<exists>evs. events w1 = events w @ evs \<and> (\<forall>e \<in> set evs. is_output e))"
  using assms unfolding Initialize_def
  by (auto simp: prog_defs member_defs is_output_def split: option.splits if_splits)

lemma Initialize_without_sharing:
  assumes "fails w Default_device = None"
    and "\<not> supports_extension (default_device w) ''cl_khr_gl_sharing''"
  shows "Initialize (this, w) =
     (Returns (), (this, w\<lparr>events := events w @
        [LoadExtension ''GL_ARB_vertex_buffer_object'',
         Cout (''device: '' @ device_name (default_device w)),
         Cerr (''error: gpu device: '' @ device_name (default_device w)
               @ '' does not support OpenGL sharing'')]\<rparr>))"
  using assms unfolding Initialize_def
  by (simp add: prog_defs member_defs)

lemma Render_initialize_skip:
  "m_initialized this \<Longrightarrow> Render_initialize (this, w) = (Returns (), (this, w))"
  by (simp add: Render_initialize_def)

lemma Render_initialize_effect:
  assumes "Render_initialize (this, w) = (out, (this1, w1))"
  shows "gl_buffers w1 = gl_buffers w \<and> fails w1 = fails w
       \<and> default_device w1 = default_device w \<and> arithmetic w1 = arithmetic w
       \<and> GetBounds_bounds w1 = GetBounds_bounds w
       \<and> array_buffer_binding w1 = array_buffer_binding w
       \<and> m_tesselated this1 = m_tesselated this \<and> m_vertex_buffer this1 = m_vertex_buffer this
       \<and> m_radius this1 = m_radius this \<and> m_phi_slices this1 = m_phi_slices this
       \<and> m_theta_slices this1 = m_theta_slices this
       \<and> m_vertex_count this1 = m_vertex_count this
       \<and> (m_initialized this \<longrightarrow> m_initialized this1)
       \<and> (out = Returns () \<longrightarrow> m_initialized this1)
       \<and> out \<noteq> Undefined_behaviour
       \<and> (\<exists>evs. events w1 = events w @ evs \<and> (\<forall>e \<in> set evs. is_output e))"
proof (cases "m_initialized this")
  case True
  with assms show ?thesis by (auto simp: Render_initialize_def)
next
  case False
  obtain out0 this0 w0 where i: "Initialize (this, w) = (out0, (this0, w0))"
    by (metis prod.exhaust)
  from assms False i have "out = out0 \<and> w1 = w0
      \<and> (out0 = Returns () \<longrightarrow> this1 = this0\<lparr>m_initialized := True\<rparr>)
      \<and> (out0 \<noteq> Returns () \<longrightarrow> this1 = this0)"
    by (auto simp: Render_initialize_def prog_defs member_defs split: outcome.splits)
  with Initialize_effect [OF i] False show ?thesis by (cases "out0 = Returns ()") auto
qed

lemma Render_tesselate_skip:
  "m_tesselated this \<Longrightarrow> Render_tesselate (this, w) = (Returns (), (this, w))"
  by (simp add: Render_tesselate_def)

lemma Render_tesselate_overflow:
  "\<not> m_tesselated this \<Longrightarrow> int_mul (m_phi_slices this) (m_theta_slices this) = None \<Longrightarrow>
     Render_tesselate (this, w) = (Undefined_behaviour, (this, w))"
  by (simp add: Render_tesselate_def)

lemma Render_tesselate_run:
  assumes "\<not> m_tesselated this"
    and "int_mul (m_phi_slices this) (m_theta_slices this) = Some n"
  shows "Render_tesselate (this, w) =
     (case tesselate_sphere (m_radius this) (scast (m_phi_slices this))
             (scast (m_theta_slices this)) (m_command_queue this) w of
        (Returns b, w1) \<Rightarrow>
          (Returns (), (this\<lparr>m_vertex_count := n, m_vertex_buffer := b, m_tesselated := True\<rparr>, w1))
      | (Raises e, w1) \<Rightarrow> (Raises e, (this\<lparr>m_vertex_count := n\<rparr>, w1))
      | (Undefined_behaviour, w1) \<Rightarrow> (Undefined_behaviour, (this\<lparr>m_vertex_count := n\<rparr>, w1)))"
  using assms
  by (simp add: Render_tesselate_def prog_defs member_defs split: prod.splits outcome.splits)

lemma Render_draw_eq:
  "Render_draw (this, w) =
     (Returns (), (this, w\<lparr>events := events w @ draw_events this,
                          array_buffer_binding := get_opengl_object (m_vertex_buffer this)\<rparr>))"
  by (simp add: Render_draw_def draw_events_def prog_defs member_defs BindBufferARB_def)

lemma Render_eq:
  "Render sw =
     (case Render_initialize sw of
        (Returns u, sw1) \<Rightarrow>
          (case Render_tesselate sw1 of
             (Returns u, sw2) \<Rightarrow> Render_draw sw2
           | (Raises e, sw2) \<Rightarrow> (Raises e, sw2)
           | (Undefined_behaviour, sw2) \<Rightarrow> (Undefined_behaviour, sw2))
      | (Raises e, sw1) \<Rightarrow> (Raises e, sw1)
      | (Undefined_behaviour, sw1) \<Rightarrow> (Undefined_behaviour, sw1))"
  by (simp add: Render_def prog_defs split: prod.splits outcome.splits)

lemma Render_tesselated:
  assumes "m_initialized this" and "m_tesselated this"
  shows "Render (this, w) =
     (Returns (), (this, w\<lparr>events := events w @ draw_events this,
                          array_buffer_binding := get_opengl_object (m_vertex_buffer this)\<rparr>))"
  using assms
  by (simp add: Render_eq Render_initialize_skip Render_tesselate_skip Render_draw_eq)

section \<open>Initialisation and tesselation failures\<close>

lemma Render_initialize_without_sharing:
  assumes "\<not> m_initialized this"
    and "fails w Default_device = None"
    and "\<not> supports_extension (default_device w) ''cl_khr_gl_sharing''"
  shows "Render_initialize (this, w) =
     (Returns (), (this\<lparr>m_initialized := True\<rparr>, w\<lparr>events := events w @
        [LoadExtension ''GL_ARB_vertex_buffer_object'',
         Cout (''device: '' @ device_name (default_device w)),
         Cerr (''error: gpu device: '' @ device_name (default_device w)
               @ '' does not support OpenGL sharing'')]\<rparr>))"
  using assms
  by (simp add: Render_initialize_def seq_def bind_def assign_def
      Initialize_without_sharing [OF assms(2,3)])

lemma Render_keeps_initialized:
  assumes "m_initialized this" and "Render (this, w) = (out, (this2, w2))"
  shows "m_initialized this2"
proof (cases "m_tesselated this")
  case True
  with assms show ?thesis by (auto simp: Render_tesselated)
next
  case False
  show ?thesis
  proof (cases "int_mul (m_phi_slices this) (m_theta_slices this)")
    case None
    with assms False show ?thesis
      by (auto simp: Render_eq Render_initialize_skip Render_tesselate_overflow)
  next
    case (Some n)
    with assms False show ?thesis
      by (auto simp: Render_eq Render_initialize_skip Render_tesselate_run Render_draw_eq
          split: prod.splits outcome.splits)
  qed
qed

lemma int_mul_100: "int_mul 100 100 = Some 10000"
  by (simp add: int_mul_def)

text \<open>
  C9. When the device does not support sharing (and \<open>default_device\<close> does not throw),
  the initialisation block of \<open>Render\<close> writes the error message, leaves \<open>m_context\<close> and
  \<open>m_command_queue\<close> as they were (default-constructed in a mapper made by the
  constructor) and sets \<open>m_initialized\<close>. The same call of \<open>Render\<close> goes on to call
  \<open>tesselate_sphere\<close> with that command queue. In every later call the initialisation
  block does nothing, and \<open>m_initialized\<close> stays set.
\<close>

theorem Render_sets_initialized_without_sharing:
  assumes "\<not> m_initialized this"
    and "fails w Default_device = None"
    and "\<not> supports_extension (default_device w) ''cl_khr_gl_sharing''"
  shows
    "(let w0 = w\<lparr>events := events w @
               [LoadExtension ''GL_ARB_vertex_buffer_object'',
                Cout (''device: '' @ device_name (default_device w)),
                Cerr (''error: gpu device: '' @ device_name (default_device w)
                      @ '' does not support OpenGL sharing'')]\<rparr>
      in Render_initialize (this, w) = (Returns (), (this\<lparr>m_initialized := True\<rparr>, w0))
       \<and> (\<forall>n. \<not> m_tesselated this
               \<and> int_mul (m_phi_slices this) (m_theta_slices this) = Some n \<longrightarrow>
             Render (this, w) =
               (case tesselate_sphere (m_radius this) (scast (m_phi_slices this))
                       (scast (m_theta_slices this)) (m_command_queue this) w0 of
                  (Returns b, w1) \<Rightarrow>
                    Render_draw (this\<lparr>m_initialized := True, m_vertex_count := n,
                                       m_vertex_buffer := b, m_tesselated := True\<rparr>, w1)
                | (Raises e, w1) \<Rightarrow>
                    (Raises e, (this\<lparr>m_initialized := True, m_vertex_count := n\<rparr>, w1))
                | (Undefined_behaviour, w1) \<Rightarrow>
                    (Undefined_behaviour,
                     (this\<lparr>m_initialized := True, m_vertex_count := n\<rparr>, w1)))))
     \<and> m_context (New indeterminate) = Null_context
     \<and> m_command_queue (New indeterminate) = Null_queue
     \<and> \<not> m_initialized (New indeterminate) \<and> \<not> m_tesselated (New indeterminate)
     \<and> (\<forall>that w' out that' w''. m_initialized that \<longrightarrow>
           Render_initialize (that, w') = (Returns (), (that, w'))
           \<and> (Render (that, w') = (out, (that', w'')) \<longrightarrow> m_initialized that'))"
proof -
  let ?w0 = "w\<lparr>events := events w @
               [LoadExtension ''GL_ARB_vertex_buffer_object'',
                Cout (''device: '' @ device_name (default_device w)),
                Cerr (''error: gpu device: '' @ device_name (default_device w)
                      @ '' does not support OpenGL sharing'')]\<rparr>"
  have init: "Render_initialize (this, w) = (Returns (), (this\<lparr>m_initialized := True\<rparr>, ?w0))"
    by (rule Render_initialize_without_sharing [OF assms])
  have run: "Render (this, w) =
      (case tesselate_sphere (m_radius this) (scast (m_phi_slices this))
              (scast (m_theta_slices this)) (m_command_queue this) ?w0 of
         (Returns b, w1) \<Rightarrow>
           Render_draw (this\<lparr>m_initialized := True, m_vertex_count := n,
                              m_vertex_buffer := b, m_tesselated := True\<rparr>, w1)
       | (Raises e, w1) \<Rightarrow>
           (Raises e, (this\<lparr>m_initialized := True, m_vertex_count := n\<rparr>, w1))
       | (Undefined_behaviour, w1) \<Rightarrow>
           (Undefined_behaviour, (this\<lparr>m_initialized := True, m_vertex_count := n\<rparr>, w1)))"
    if "\<not> m_tesselated this" "int_mul (m_phi_slices this) (m_theta_slices this) = Some n" for n
    using that
    by (simp add: Render_eq init Render_tesselate_run split: prod.splits outcome.splits)
  have later: "Render_initialize (that, w') = (Returns (), (that, w'))
      \<and> (Render (that, w') = (out, (that', w'')) \<longrightarrow> m_initialized that')"
    if "m_initialized that" for that w' out that' w''
    using that Render_keeps_initialized [of that w' out that' w'']
    by (simp add: Render_initialize_skip)
  from init run later show ?thesis
    by (simp add: New_def Let_def)
qed

theorem Render_sets_initialized_without_sharing_witness:
  "\<not> m_initialized (New 0)
   \<and> fails (sample_world no_sharing_device no_failure) Default_device = None
   \<and> \<not> supports_extension (default_device (sample_world no_sharing_device no_failure))
         ''cl_khr_gl_sharing''
   \<and> Render_initialize (New 0, sample_world no_sharing_device no_failure) =
       (Returns (),
        ((New 0)\<lparr>m_initialized := True\<rparr>,
         (sample_world no_sharing_device no_failure)\<lparr>events :=
            [LoadExtension ''GL_ARB_vertex_buffer_object'', Cout ''device: cpu'',
             Cerr ''error: gpu device: cpu does not support OpenGL sharing'']\<rparr>))
   \<and> m_command_queue ((New 0)\<lparr>m_initialized := True\<rparr>) = Null_queue"
proof -
  let ?w = "sample_world no_sharing_device no_failure"
  have h: "\<not> m_initialized (New 0)" "fails ?w Default_device = None"
    "\<not> supports_extension (default_device ?w) ''cl_khr_gl_sharing''"
    by (simp_all add: New_def sample_world_def no_failure_def no_sharing_device_def
        supports_extension_def)
  from Render_sets_initialized_without_sharing [OF h, of 0]
  have "Render_initialize (New 0, ?w) =
       (Returns (),
        ((New 0)\<lparr>m_initialized := True\<rparr>,
         ?w\<lparr>events := events ?w @
            [LoadExtension ''GL_ARB_vertex_buffer_object'',
             Cout (''device: '' @ device_name (default_device ?w)),
             Cerr (''error: gpu device: '' @ device_name (default_device ?w)
                   @ '' does not support OpenGL sharing'')]\<rparr>))"
    by (simp add: Let_def)
  then have "Render_initialize (New 0, ?w) =
       (Returns (),
        ((New 0)\<lparr>m_initialized := True\<rparr>,
         ?w\<lparr>events :=
            [LoadExtension ''GL_ARB_vertex_buffer_object'', Cout ''device: cpu'',
             Cerr ''error: gpu device: cpu does not support OpenGL sharing'']\<rparr>))"
    by (simp add: sample_world_def no_sharing_device_def)
  with h show ?thesis by (simp add: New_def)
qed

section \<open>Evaluating the model on the concrete instances\<close>

lemmas sample_defs = sample_mapper_def sample_world_def sharing_device_def
  no_sharing_device_def no_failure_def build_fails_def dispatch_fails_def null_queue_fails_def
  release_fails_def
  sample_fp_def New_def

lemmas Render_defs = Render_def Render_initialize_def Render_tesselate_def Render_draw_def
  Initialize_def int_mul_def supports_extension_def get_context_def

lemmas kernel_defs = run_kernel_def kernel_writes_def work_items_2_2 tesselate_sphere_kernel_def
  kernel_phi_def kernel_theta_def kernel_vertex_def store_float4_def lit_1f_def lit_2f_def
  M_PI_F_def

lemmas eval_defs = sample_defs Render_defs tesselate_sphere_defs prog_defs member_defs
  kernel_defs Let_def

section \<open>What a dispatch leaves in the buffer\<close>

lemma fold_store_float4_None: "fold store_float4 writes None = None"
  by (induction writes) (simp_all add: store_float4_def)

lemma fold_store_float4_Cons:
  assumes "fold store_float4 (wr # writes) (Some cells) = Some cells'"
  shows "unat (fst wr) < length cells
       \<and> fold store_float4 writes (Some (cells[unat (fst wr) := Some (snd wr)])) = Some cells'"
proof (cases "unat (fst wr) < length cells")
  case True
  with assms show ?thesis by (simp add: store_float4_def)
next
  case False
  with assms show ?thesis by (simp add: store_float4_def fold_store_float4_None)
qed

lemma fold_store_float4_bounds:
  "fold store_float4 writes (Some cells) = Some cells' \<Longrightarrow>
     \<forall>wr \<in> set writes. unat (fst wr) < length cells"
proof (induction writes arbitrary: cells)
  case Nil
  show ?case by simp
next
  case (Cons wr writes)
  from fold_store_float4_Cons [OF Cons.prems]
  have a: "unat (fst wr) < length cells"
    and b: "fold store_float4 writes (Some (cells[unat (fst wr) := Some (snd wr)])) = Some cells'"
    by simp_all
  from Cons.IH [OF b] a show ?case by simp
qed

lemma fold_store_float4_nth:
  "fold store_float4 writes (Some cells) = Some cells' \<Longrightarrow> k < length cells \<Longrightarrow>
     (if \<exists>wr \<in> set writes. unat (fst wr) = k
      then \<exists>wr \<in> set writes. unat (fst wr) = k \<and> cells' ! k = Some (snd wr)
      else cells' ! k = cells ! k)"
proof (induction writes arbitrary: cells)
  case Nil
  then show ?case by simp
next
  case (Cons wr writes)
  let ?cells1 = "cells[unat (fst wr) := Some (snd wr)]"
  from fold_store_float4_Cons [OF Cons.prems(1)]
  have a: "unat (fst wr) < length cells"
    and b: "fold store_float4 writes (Some ?cells1) = Some cells'"
    by simp_all
  from Cons.prems(2) have k: "k < length ?cells1" by simp
  note IH = Cons.IH [OF b k]
  show ?case
  proof (cases "\<exists>wr' \<in> set writes. unat (fst wr') = k")
    case True
    with IH show ?thesis by auto
  next
    case False
    with IH have "cells' ! k = ?cells1 ! k" by simp
    with False Cons.prems(2) show ?thesis by (auto simp: nth_list_update)
  qed
qed

lemma run_kernel_written:
  assumes "run_kernel writes cells = Some cells'" and "(i, v) \<in> set writes"
  shows "unat i < length cells'"
    and "\<exists>v'. (i, v') \<in> set writes \<and> cells' ! unat i = Some v'"
    and "(\<forall>v'. (i, v') \<in> set writes \<longrightarrow> v' = v) \<Longrightarrow> cells' ! unat i = Some v"
proof -
  from assms(1) have f: "fold store_float4 writes (Some cells) = Some cells'"
    by (simp add: run_kernel_def)
  from fold_store_float4_bounds [OF f] assms(2) have b: "unat i < length cells"
    by force
  with run_kernel_length [OF assms(1)] show "unat i < length cells'" by simp
  from assms(2) have "\<exists>wr \<in> set writes. unat (fst wr) = unat i" by force
  with fold_store_float4_nth [OF f b]
  obtain wr where wr: "wr \<in> set writes" "unat (fst wr) = unat i" "cells' ! unat i = Some (snd wr)"
    by auto
  from wr(2) have "fst wr = i" by (simp add: word_unat_eq_iff)
  with wr(1) have "(i, snd wr) \<in> set writes" by (metis prod.collapse)
  with wr(3) show ex: "\<exists>v'. (i, v') \<in> set writes \<and> cells' ! unat i = Some v'" by blast
  assume "\<forall>v'. (i, v') \<in> set writes \<longrightarrow> v' = v"
  with ex show "cells' ! unat i = Some v" by auto
qed

lemma run_kernel_unwritten:
  assumes "run_kernel writes cells = Some cells'" and "k < length cells"
    and "\<forall>wr \<in> set writes. unat (fst wr) \<noteq> k"
  shows "cells' ! k = cells ! k"
proof -
  from assms(1) have f: "fold store_float4 writes (Some cells) = Some cells'"
    by (simp add: run_kernel_def)
  from fold_store_float4_nth [OF f assms(2)] assms(3) show ?thesis by auto
qed

lemma kernel_writes_w:
  "(i, v) \<in> set (kernel_writes fp radius phi_slices theta_slices work_size) \<Longrightarrow> v_w v = lit_1f"
  by (auto simp: kernel_writes_def tesselate_sphere_kernel_def kernel_vertex_def Let_def)

lemma tesselate_sphere_cells:
  assumes "tesselate_sphere r p t q w = (Returns b, w')"
  shows "\<exists>cells. run_kernel (kernel_writes (arithmetic w) r (ucast p) (ucast t) (p, t)) cells
           = Some (cells_of w' b)
         \<and> cells = replicate (if 0 \<le> sint (4 * 4 * (p * t) :: size_t)
                              then unat (4 * 4 * (p * t) :: size_t) div 16 else 0) None"
  using assms unfolding tesselate_sphere_defs
  by (auto simp: prog_defs Let_def nth_append dest: run_kernel_length
      split: option.splits if_splits prod.splits outcome.splits)


lemma unat_kernel_index:
  fixes gid0 gid1 phi_slices :: size_t
  shows "unat ((ucast gid0 :: uint) * ucast phi_slices + ucast gid1)
       = (unat gid0 * unat phi_slices + unat gid1) mod 2 ^ 32"
proof -
  have "unat ((ucast gid0 :: uint) * ucast phi_slices + ucast gid1)
      = (unat gid0 mod 2 ^ 32 * (unat phi_slices mod 2 ^ 32) mod 2 ^ 32 + unat gid1 mod 2 ^ 32)
          mod 2 ^ 32"
    by (simp add: unat_word_ariths unsigned_ucast_eq take_bit_eq_mod)
  also have "\<dots> = (unat gid0 * unat phi_slices + unat gid1) mod 2 ^ 32"
    by (simp add: mod_simps)
  finally show ?thesis .
qed

lemma written_cell:
  assumes run: "run_kernel (kernel_writes fp radius phi_slices theta_slices work_size) cells
                  = Some cells'"
    and wr: "(i, v) \<in> set (kernel_writes fp radius phi_slices theta_slices work_size)"
  shows "unat i < length cells'
       \<and> (\<exists>v'. (i, v') \<in> set (kernel_writes fp radius phi_slices theta_slices work_size)
                \<and> cells' ! unat i = Some v')
       \<and> (\<exists>x y z. cells' ! unat i = Some (Float4 x y z 0x3F800000))
       \<and> ((\<forall>v'. (i, v') \<in> set (kernel_writes fp radius phi_slices theta_slices work_size)
                  \<longrightarrow> v' = v) \<longrightarrow> cells' ! unat i = Some v)"
proof -
  note w = run_kernel_written [OF run wr]
  from w(2) obtain v' where
    v': "(i, v') \<in> set (kernel_writes fp radius phi_slices theta_slices work_size)"
      "cells' ! unat i = Some v'" by blast
  from kernel_writes_w [OF v'(1)] have "v' = Float4 (v_x v') (v_y v') (v_z v') 0x3F800000"
    by (cases v') (simp add: lit_1f_def)
  with v'(2) have "\<exists>x y z. cells' ! unat i = Some (Float4 x y z 0x3F800000)"
    by metis
  with w show ?thesis by blast
qed

lemma sample_kernel_writes:
  "kernel_writes sample_fp 0x40A00000 2 2 (2, 2) =
     [(0, Float4 1084227832 1084259525 1084259401 0x3F800000),
      (1, Float4 1084227834 1084259527 1084259913 0x3F800000),
      (2, Float4 1084227834 1084260037 1084259401 0x3F800000),
      (3, Float4 1084227836 1084260039 1084259913 0x3F800000)]"
  by (simp add: kernel_writes_def work_items_2_2 tesselate_sphere_kernel_def kernel_phi_def
      kernel_theta_def kernel_vertex_def lit_1f_def lit_2f_def M_PI_F_def sample_fp_def Let_def)

lemma replicate_4: "replicate 4 x = [x, x, x, x]"
  by (simp add: numeral_eq_Suc)

lemma sample_run_kernel:
  "run_kernel (kernel_writes sample_fp 0x40A00000 2 2 (2, 2)) (replicate 4 None) =
     Some [Some (Float4 1084227832 1084259525 1084259401 0x3F800000),
           Some (Float4 1084227834 1084259527 1084259913 0x3F800000),
           Some (Float4 1084227834 1084260037 1084259401 0x3F800000),
           Some (Float4 1084227836 1084260039 1084259913 0x3F800000)]"
  by (simp add: sample_kernel_writes run_kernel_def store_float4_def replicate_4)

lemma sample_tesselate_sphere:
  "tesselate_sphere 0x40A00000 2 2 (Command_queue (Context sharing_device) sharing_device)
     (sample_world sharing_device no_failure) =
   (Returns (Opengl_buffer (Context sharing_device) 1),
    (sample_world sharing_device no_failure)
      \<lparr>events := tesselate_events 0x40A00000 2 2
                   (Command_queue (Context sharing_device) sharing_device) 1,
        gl_buffers := [\<lparr>buffer_bytes = 64, buffer_cells =
          [Some (Float4 1084227832 1084259525 1084259401 0x3F800000),
           Some (Float4 1084227834 1084259527 1084259913 0x3F800000),
           Some (Float4 1084227834 1084260037 1084259401 0x3F800000),
           Some (Float4 1084227836 1084260039 1084259913 0x3F800000)]\<rparr>]\<rparr>)"
  by (simp add: eval_defs replicate_4)

text \<open>
  C1. Every work-item \<open>(gid0, gid1)\<close> of the dispatch made by \<open>tesselate_sphere\<close>, that is
  every pair with \<open>gid0 < phi_slices\<close> and \<open>gid1 < theta_slices\<close>, computes
  \<open>phi = phi_i * 2 * pi / phi_slices\<close> and \<open>theta = theta_i * 2 * pi / theta_slices\<close> in the
  device's arithmetic and stores the vertex
  \<open>(radius * cos theta * cos phi, radius * cos theta * sin phi, radius * sin theta, 1.0)\<close>,
  whose fourth component is the bit pattern of \<open>1.0f\<close>, into the buffer cell of index
  \<open>phi_i * phi_slices + theta_i\<close>. The index is the kernel's \<open>uint\<close> expression: its value
  is \<open>gid0 * phi_slices + gid1\<close> modulo \<open>2^32\<close>, which is \<open>gid0 * phi_slices + gid1\<close> itself
  whenever that is below \<open>2^32\<close>. The store replaces that cell of the buffer and no
  other, and is undefined when the index is not one of the buffer. When the dispatch
  has run (and when \<open>tesselate_sphere\<close> has returned the buffer), the index is one of the
  buffer, and the cell holds a vertex that a work-item stored at that index, with
  fourth component \<open>1.0f\<close>: the vertex above, when no other work-item stores a different
  vertex at the same index.
\<close>

theorem kernel_stores_vertex:
  fixes phi_slices theta_slices gid0 gid1 :: size_t
  assumes "gid0 < phi_slices" and "gid1 < theta_slices"
  shows
    "let phi_i = (ucast gid0 :: uint);
         theta_i = (ucast gid1 :: uint);
         phi = fp_div fp (fp_mul fp (fp_mul fp (fp_of_uint fp phi_i) lit_2f) M_PI_F)
                 (fp_of_uint fp (ucast phi_slices));
         theta = fp_div fp (fp_mul fp (fp_mul fp (fp_of_uint fp theta_i) lit_2f) M_PI_F)
                   (fp_of_uint fp (ucast theta_slices));
         index = phi_i * ucast phi_slices + theta_i;
         v = Float4 (fp_mul fp (fp_mul fp radius (fp_cos fp theta)) (fp_cos fp phi))
                    (fp_mul fp (fp_mul fp radius (fp_cos fp theta)) (fp_sin fp phi))
                    (fp_mul fp radius (fp_sin fp theta))
                    0x3F800000;
         writes = kernel_writes fp radius (ucast phi_slices) (ucast theta_slices)
                    (phi_slices, theta_slices)
     in tesselate_sphere_kernel fp radius (ucast phi_slices) (ucast theta_slices) (gid0, gid1)
          = (index, v)
      \<and> (index, v) \<in> set writes
      \<and> unat index = (unat gid0 * unat phi_slices + unat gid1) mod 2 ^ 32
      \<and> (unat gid0 * unat phi_slices + unat gid1 < 2 ^ 32 \<longrightarrow>
           unat index = unat gid0 * unat phi_slices + unat gid1)
      \<and> (\<forall>cells. store_float4 (index, v) (Some cells) =
            (if unat index < length cells then Some (cells[unat index := Some v]) else None))
      \<and> (\<forall>cells cells'. run_kernel writes cells = Some cells' \<longrightarrow>
            unat index < length cells'
          \<and> (\<exists>v'. (index, v') \<in> set writes \<and> cells' ! unat index = Some v')
          \<and> (\<exists>x y z. cells' ! unat index = Some (Float4 x y z 0x3F800000))
          \<and> ((\<forall>v'. (index, v') \<in> set writes \<longrightarrow> v' = v) \<longrightarrow> cells' ! unat index = Some v))
      \<and> (\<forall>queue w b w'. arithmetic w = fp
            \<and> tesselate_sphere radius phi_slices theta_slices queue w = (Returns b, w') \<longrightarrow>
            unat index < length (cells_of w' b)
          \<and> (\<exists>v'. (index, v') \<in> set writes \<and> cells_of w' b ! unat index = Some v')
          \<and> (\<exists>x y z. cells_of w' b ! unat index = Some (Float4 x y z 0x3F800000))
          \<and> ((\<forall>v'. (index, v') \<in> set writes \<longrightarrow> v' = v)
               \<longrightarrow> cells_of w' b ! unat index = Some v))"
proof -
  define index :: uint where "index = ucast gid0 * ucast phi_slices + ucast gid1"
  define v where "v = snd (tesselate_sphere_kernel fp radius (ucast phi_slices)
                             (ucast theta_slices) (gid0, gid1))"
  define writes where "writes = kernel_writes fp radius (ucast phi_slices) (ucast theta_slices)
                    (phi_slices, theta_slices)"
  have k: "tesselate_sphere_kernel fp radius (ucast phi_slices) (ucast theta_slices) (gid0, gid1)
             = (index, v)"
    by (simp add: index_def v_def tesselate_sphere_kernel_def Let_def)
  have "(gid0, gid1) \<in> set (work_items phi_slices theta_slices)"
    using assms by (simp add: set_work_items)
  then have "tesselate_sphere_kernel fp radius (ucast phi_slices) (ucast theta_slices) (gid0, gid1)
      \<in> set writes"
    unfolding writes_def kernel_writes_def by (simp del: set_map add: image_eqI list.set_map)
  then have m: "(index, v) \<in> set writes" by (simp only: k)
  have u: "unat index = (unat gid0 * unat phi_slices + unat gid1) mod 2 ^ 32"
    unfolding index_def by (rule unat_kernel_index)
  have s: "\<forall>cells. store_float4 (index, v) (Some cells) =
            (if unat index < length cells then Some (cells[unat index := Some v]) else None)"
    by (simp add: store_float4_def)
  have r: "\<forall>cells cells'. run_kernel writes cells = Some cells' \<longrightarrow>
            unat index < length cells'
          \<and> (\<exists>v'. (index, v') \<in> set writes \<and> cells' ! unat index = Some v')
          \<and> (\<exists>x y z. cells' ! unat index = Some (Float4 x y z 0x3F800000))
          \<and> ((\<forall>v'. (index, v') \<in> set writes \<longrightarrow> v' = v) \<longrightarrow> cells' ! unat index = Some v)"
    using written_cell m unfolding writes_def by blast
  have t: "\<forall>queue w b w'. arithmetic w = fp
            \<and> tesselate_sphere radius phi_slices theta_slices queue w = (Returns b, w') \<longrightarrow>
            unat index < length (cells_of w' b)
          \<and> (\<exists>v'. (index, v') \<in> set writes \<and> cells_of w' b ! unat index = Some v')
          \<and> (\<exists>x y z. cells_of w' b ! unat index = Some (Float4 x y z 0x3F800000))
          \<and> ((\<forall>v'. (index, v') \<in> set writes \<longrightarrow> v' = v)
               \<longrightarrow> cells_of w' b ! unat index = Some v)"
  proof (intro allI impI)
    fix queue w b w'
    assume a: "arithmetic w = fp
       \<and> tesselate_sphere radius phi_slices theta_slices queue w = (Returns b, w')"
    then obtain cells where "run_kernel writes cells = Some (cells_of w' b)"
      using tesselate_sphere_cells [of radius phi_slices theta_slices queue w b w']
      unfolding writes_def by auto
    with r show "unat index < length (cells_of w' b)
          \<and> (\<exists>v'. (index, v') \<in> set writes \<and> cells_of w' b ! unat index = Some v')
          \<and> (\<exists>x y z. cells_of w' b ! unat index = Some (Float4 x y z 0x3F800000))
          \<and> ((\<forall>v'. (index, v') \<in> set writes \<longrightarrow> v' = v)
               \<longrightarrow> cells_of w' b ! unat index = Some v)"
      by blast
  qed
  have v: "v = Float4
     (fp_mul fp (fp_mul fp radius (fp_cos fp
        (fp_div fp (fp_mul fp (fp_mul fp (fp_of_uint fp (ucast gid1)) lit_2f) M_PI_F)
                   (fp_of_uint fp (ucast theta_slices)))))
       (fp_cos fp (fp_div fp (fp_mul fp (fp_mul fp (fp_of_uint fp (ucast gid0)) lit_2f) M_PI_F)
                 (fp_of_uint fp (ucast phi_slices)))))
     (fp_mul fp (fp_mul fp radius (fp_cos fp
        (fp_div fp (fp_mul fp (fp_mul fp (fp_of_uint fp (ucast gid1)) lit_2f) M_PI_F)
                   (fp_of_uint fp (ucast theta_slices)))))
       (fp_sin fp (fp_div fp (fp_mul fp (fp_mul fp (fp_of_uint fp (ucast gid0)) lit_2f) M_PI_F)
                 (fp_of_uint fp (ucast phi_slices)))))
     (fp_mul fp radius (fp_sin fp
        (fp_div fp (fp_mul fp (fp_mul fp (fp_of_uint fp (ucast gid1)) lit_2f) M_PI_F)
                   (fp_of_uint fp (ucast theta_slices)))))
     0x3F800000"
    by (simp add: v_def tesselate_sphere_kernel_def kernel_phi_def kernel_theta_def
        kernel_vertex_def lit_1f_def Let_def)
  from u have e: "unat gid0 * unat phi_slices + unat gid1 < 2 ^ 32 \<longrightarrow>
           unat index = unat gid0 * unat phi_slices + unat gid1"
    by simp
  from k m u e s r t show ?thesis
    unfolding Let_def index_def [symmetric] writes_def [symmetric] v [symmetric]
    by (intro conjI)
qed


theorem kernel_stores_vertex_witness:
  "(1 :: size_t) < 2 \<and> (0 :: size_t) < 2
   \<and> tesselate_sphere_kernel sample_fp 0x40A00000 2 2 (1, 0)
       = (2, Float4 1084227834 1084260037 1084259401 0x3F800000)
   \<and> run_kernel (kernel_writes sample_fp 0x40A00000 2 2 (2, 2)) (replicate 4 None) =
       Some [Some (Float4 1084227832 1084259525 1084259401 0x3F800000),
             Some (Float4 1084227834 1084259527 1084259913 0x3F800000),
             Some (Float4 1084227834 1084260037 1084259401 0x3F800000),
             Some (Float4 1084227836 1084260039 1084259913 0x3F800000)]
   \<and> arithmetic (sample_world sharing_device no_failure) = sample_fp
   \<and> fst (tesselate_sphere 0x40A00000 2 2
            (Command_queue (Context sharing_device) sharing_device)
            (sample_world sharing_device no_failure))
       = Returns (Opengl_buffer (Context sharing_device) 1)
   \<and> cells_of (snd (tesselate_sphere 0x40A00000 2 2
                      (Command_queue (Context sharing_device) sharing_device)
                      (sample_world sharing_device no_failure)))
        (Opengl_buffer (Context sharing_device) 1) ! 2
       = Some (Float4 1084227834 1084260037 1084259401 0x3F800000)"
proof -
  let ?q = "Command_queue (Context sharing_device) sharing_device"
  let ?w = "sample_world sharing_device no_failure"
  let ?b = "Opengl_buffer (Context sharing_device) 1"
  let ?v = "Float4 1084227834 1084260037 1084259401 0x3F800000"
  let ?writes = "kernel_writes sample_fp 0x40A00000 2 2 (2, 2)"
  have lt: "(1 :: size_t) < 2" "(0 :: size_t) < 2" by simp_all
  have a: "arithmetic ?w = sample_fp" by (simp add: sample_world_def)
  have t: "tesselate_sphere 0x40A00000 2 2 ?q ?w
             = (Returns ?b, snd (tesselate_sphere 0x40A00000 2 2 ?q ?w))"
    by (simp add: sample_tesselate_sphere)
  have uniq: "\<forall>v'. (2, v') \<in> set ?writes \<longrightarrow> v' = ?v"
    by (simp add: sample_kernel_writes)
  have vals: "ucast (2 :: size_t) = (2 :: uint)" "ucast (1 :: size_t) = (1 :: uint)"
    "ucast (0 :: size_t) = (0 :: uint)"
    by simp_all
  note ksv = kernel_stores_vertex [OF lt, of sample_fp "0x40A00000", unfolded Let_def vals]
  have k: "tesselate_sphere_kernel sample_fp 0x40A00000 2 2 (1, 0) = (2, ?v)"
    by (simp add: tesselate_sphere_kernel_def kernel_phi_def
      kernel_theta_def kernel_vertex_def lit_1f_def lit_2f_def M_PI_F_def sample_fp_def Let_def)
  from ksv k have
    "\<forall>queue w b w'. arithmetic w = sample_fp
            \<and> tesselate_sphere 0x40A00000 2 2 queue w = (Returns b, w') \<longrightarrow>
          ((\<forall>v'. (2, v') \<in> set ?writes \<longrightarrow> v' = ?v) \<longrightarrow> cells_of w' b ! unat (2 :: uint) = Some ?v)"
    by simp
  with a t uniq have "cells_of (snd (tesselate_sphere 0x40A00000 2 2 ?q ?w)) ?b ! unat (2 :: uint)
       = Some ?v"
    by blast
  then have c: "cells_of (snd (tesselate_sphere 0x40A00000 2 2 ?q ?w)) ?b ! 2 = Some ?v"
    by simp
  have f: "fst (tesselate_sphere 0x40A00000 2 2 ?q ?w) = Returns ?b"
    by (simp add: sample_tesselate_sphere)
  from lt k sample_run_kernel a f c show ?thesis
    by blast
qed

text \<open>
  C8. When the initialisation block of \<open>Render\<close> has returned and the call of
  \<open>tesselate_sphere\<close> throws (a failed program build or dispatch, for example), the error
  leaves \<open>Render\<close>, and the object is left initialised and not tesselated; the next call
  of \<open>Render\<close>, in any world, calls \<open>tesselate_sphere\<close> again with the same arguments.
\<close>

theorem failed_tesselation_is_retried:
  assumes "Render_initialize (this, w) = (Returns (), (this0, w0))"
    and "\<not> m_tesselated this"
    and "int_mul (m_phi_slices this) (m_theta_slices this) = Some n"
    and "tesselate_sphere (m_radius this) (scast (m_phi_slices this))
           (scast (m_theta_slices this)) (m_command_queue this0) w0 = (Raises e, w1)"
  shows
    "(let this1 = this0\<lparr>m_vertex_count := n\<rparr>
      in Render (this, w) = (Raises e, (this1, w1))
       \<and> m_initialized this1 \<and> \<not> m_tesselated this1
       \<and> (\<forall>w2. Render (this1, w2) =
             (case tesselate_sphere (m_radius this) (scast (m_phi_slices this))
                     (scast (m_theta_slices this)) (m_command_queue this0) w2 of
                (Returns b, w3) \<Rightarrow>
                  Render_draw (this1\<lparr>m_vertex_buffer := b, m_tesselated := True\<rparr>, w3)
              | (Raises e', w3) \<Rightarrow> (Raises e', (this1, w3))
              | (Undefined_behaviour, w3) \<Rightarrow> (Undefined_behaviour, (this1, w3)))))"
proof -
  let ?this1 = "this0\<lparr>m_vertex_count := n\<rparr>"
  from Render_initialize_effect [OF assms(1)]
  have same: "m_tesselated this0 = m_tesselated this" "m_radius this0 = m_radius this"
    "m_phi_slices this0 = m_phi_slices this" "m_theta_slices this0 = m_theta_slices this"
    and init: "m_initialized this0"
    by simp_all
  have "Render (this, w) = (Raises e, (?this1, w1))"
    using assms(2-4) same
    by (simp add: Render_eq assms(1) Render_tesselate_run)
  moreover have "Render (?this1, w2) =
      (case tesselate_sphere (m_radius this) (scast (m_phi_slices this))
              (scast (m_theta_slices this)) (m_command_queue this0) w2 of
         (Returns b, w3) \<Rightarrow>
           Render_draw (?this1\<lparr>m_vertex_buffer := b, m_tesselated := True\<rparr>, w3)
       | (Raises e', w3) \<Rightarrow> (Raises e', (?this1, w3))
       | (Undefined_behaviour, w3) \<Rightarrow> (Undefined_behaviour, (?this1, w3)))" for w2
    using assms(2,3) same init
    by (simp add: Render_eq Render_initialize_skip Render_tesselate_run
        split: prod.splits outcome.splits)
  ultimately show ?thesis
    using init same assms(2) by (simp add: Let_def)
qed

theorem failed_tesselation_is_retried_witness:
  "(let W = sample_world sharing_device build_fails;
        R = Render (sample_mapper, W)
    in fst (Render_initialize (sample_mapper, W)) = Returns ()
     \<and> \<not> m_tesselated sample_mapper
     \<and> int_mul (m_phi_slices sample_mapper) (m_theta_slices sample_mapper) = Some 4
     \<and> fst R = Raises (BuildError ''log'')
     \<and> m_initialized (fst (snd R)) \<and> \<not> m_tesselated (fst (snd R))
     \<and> fst (Render (fst (snd R), (snd (snd R))\<lparr>fails := no_failure\<rparr>)) = Returns ())"
proof -
  let ?W = "sample_world sharing_device build_fails"
  let ?I = "Render_initialize (sample_mapper, ?W)"
  let ?m0 = "fst (snd ?I)" and ?w0 = "snd (snd ?I)"
  let ?T = "tesselate_sphere (m_radius sample_mapper) (scast (m_phi_slices sample_mapper))
              (scast (m_theta_slices sample_mapper)) (m_command_queue ?m0) ?w0"
  have i0: "fst ?I = Returns ()"
    by (simp add: eval_defs)
  then have i: "?I = (Returns (), (?m0, ?w0))"
    by (metis prod.collapse)
  have nt: "\<not> m_tesselated sample_mapper"
    by (simp add: sample_defs)
  have im: "int_mul (m_phi_slices sample_mapper) (m_theta_slices sample_mapper) = Some 4"
    by (simp add: sample_defs int_mul_def)
  have "fst ?T = Raises (BuildError ''log'')"
    by (simp add: eval_defs)
  then have t: "?T = (Raises (BuildError ''log''), snd ?T)"
    by (metis prod.collapse)
  let ?m1 = "?m0\<lparr>m_vertex_count := 4\<rparr>"
  from failed_tesselation_is_retried [OF i nt im t, unfolded Let_def]
  have r: "Render (sample_mapper, ?W) = (Raises (BuildError ''log''), (?m1, snd ?T))"
    and f: "m_initialized ?m1" "\<not> m_tesselated ?m1"
    by blast+
  have again: "fst (Render (?m1, (snd ?T)\<lparr>fails := no_failure\<rparr>)) = Returns ()"
    by (simp add: eval_defs)
  from i0 nt im r f again show ?thesis
    by (simp only: Let_def fst_conv snd_conv simp_thms)
qed

section \<open>What a call of \<open>Render\<close> draws\<close>

lemma new_events_append: "events w' = events w @ evs \<Longrightarrow> new_events w w' = evs"
  by (simp add: new_events_def)

lemma no_draw_in_output: "is_output e \<Longrightarrow> \<not> is_draw e"
  by (cases e) (simp_all add: is_output_def is_draw_def)

lemma Render_returns_draws:
  assumes "Render sw = (Returns u, (this', w'))"
  shows "\<exists>evs. events w' = evs @ draw_events this'"
  using assms
  by (auto simp: Render_eq Render_draw_eq split: prod.splits outcome.splits)

text \<open>
  C3. \<open>Initialize\<close> gives up on a device without sharing support: it writes the error
  to \<open>std::cerr\<close> and returns before it creates a context or a queue. \<open>Render\<close> does not
  learn of it: it sets \<open>m_initialized\<close> and goes on to \<open>tesselate_sphere\<close> with the
  default-constructed queue. Two runs on such a device. With a compute library that
  refuses a null command queue (\<open>CL_INVALID_COMMAND_QUEUE\<close>, -36), the first call of
  \<open>Render\<close> on a mapper as constructed throws that error to its caller, having written
  the message and drawn nothing, and the next call throws it again, without a new
  message. With a library that accepts the null queue, the call on a mapper of two by
  two slices returns, having tesselated and drawn four points. Whatever the library
  does, no first call of \<open>Render\<close> on that device both returns and draws nothing.
\<close>

theorem Render_without_sharing_throws_or_draws:
  "(let W = sample_world no_sharing_device null_queue_fails;
        R1 = Render (New 0, W);
        R2 = Render (snd R1)
    in \<not> supports_extension (default_device W) ''cl_khr_gl_sharing''
     \<and> fst R1 = Raises (OpenclError (- 36))
     \<and> events (snd (snd R1)) =
         [LoadExtension ''GL_ARB_vertex_buffer_object'', Cout ''device: cpu'',
          Cerr ''error: gpu device: cpu does not support OpenGL sharing'']
     \<and> m_initialized (fst (snd R1)) \<and> \<not> m_tesselated (fst (snd R1))
     \<and> m_context (fst (snd R1)) = Null_context
     \<and> m_command_queue (fst (snd R1)) = Null_queue
     \<and> fst R2 = Raises (OpenclError (- 36))
     \<and> events (snd (snd R2)) = events (snd (snd R1)))
   \<and> (let W = sample_world no_sharing_device no_failure;
          R = Render (sample_mapper, W)
      in fst R = Returns ()
       \<and> Cerr ''error: gpu device: cpu does not support OpenGL sharing''
            \<in> set (events (snd (snd R)))
       \<and> m_tesselated (fst (snd R))
       \<and> m_command_queue (fst (snd R)) = Null_queue
       \<and> filter is_dispatch (events (snd (snd R))) =
           [CL_NDRange Null_queue
              (tesselate_kernel 0x40A00000 2 2 (Opengl_buffer Null_context 1)) 2 2]
       \<and> filter is_draw (events (snd (snd R))) = [GL_DrawArrays 4])
   \<and> \<not> (\<exists>f. fst (Render (New 0, sample_world no_sharing_device f)) = Returns ()
            \<and> filter is_draw
                 (events (snd (snd (Render (New 0, sample_world no_sharing_device f))))) = [])"
proof (intro conjI)
  show "let W = sample_world no_sharing_device null_queue_fails;
        R1 = Render (New 0, W);
        R2 = Render (snd R1)
    in \<not> supports_extension (default_device W) ''cl_khr_gl_sharing''
     \<and> fst R1 = Raises (OpenclError (- 36))
     \<and> events (snd (snd R1)) =
         [LoadExtension ''GL_ARB_vertex_buffer_object'', Cout ''device: cpu'',
          Cerr ''error: gpu device: cpu does not support OpenGL sharing'']
     \<and> m_initialized (fst (snd R1)) \<and> \<not> m_tesselated (fst (snd R1))
     \<and> m_context (fst (snd R1)) = Null_context
     \<and> m_command_queue (fst (snd R1)) = Null_queue
     \<and> fst R2 = Raises (OpenclError (- 36))
     \<and> events (snd (snd R2)) = events (snd (snd R1))"
    by (simp add: eval_defs)
  show "let W = sample_world no_sharing_device no_failure;
          R = Render (sample_mapper, W)
      in fst R = Returns ()
       \<and> Cerr ''error: gpu device: cpu does not support OpenGL sharing''
            \<in> set (events (snd (snd R)))
       \<and> m_tesselated (fst (snd R))
       \<and> m_command_queue (fst (snd R)) = Null_queue
       \<and> filter is_dispatch (events (snd (snd R))) =
           [CL_NDRange Null_queue
              (tesselate_kernel 0x40A00000 2 2 (Opengl_buffer Null_context 1)) 2 2]
       \<and> filter is_draw (events (snd (snd R))) = [GL_DrawArrays 4]"
    by (simp add: eval_defs is_dispatch_def is_draw_def)
  show "\<not> (\<exists>f. fst (Render (New 0, sample_world no_sharing_device f)) = Returns ()
            \<and> filter is_draw
                 (events (snd (snd (Render (New 0, sample_world no_sharing_device f))))) = [])"
  proof
    assume "\<exists>f. fst (Render (New 0, sample_world no_sharing_device f)) = Returns ()
            \<and> filter is_draw
                 (events (snd (snd (Render (New 0, sample_world no_sharing_device f))))) = []"
    then obtain f where ret: "fst (Render (New 0, sample_world no_sharing_device f)) = Returns ()"
      and nodraw: "filter is_draw
          (events (snd (snd (Render (New 0, sample_world no_sharing_device f))))) = []"
      by blast
    let ?R = "Render (New 0, sample_world no_sharing_device f)"
    from ret have "?R = (Returns (), (fst (snd ?R), snd (snd ?R)))"
      by (metis prod.collapse)
    from Render_returns_draws [OF this] obtain evs where
      "events (snd (snd ?R)) = evs @ draw_events (fst (snd ?R))"
      by blast
    with nodraw show False
      by (simp add: draw_events_def is_draw_def)
  qed
qed

section \<open>Slice counts and sizes\<close>

lemma uint_nonneg_sint:
  fixes a :: "'a::len word"
  assumes "0 \<le> sint a"
  shows "uint a = sint a"
proof -
  have "sint a < 2 ^ (LENGTH('a) - Suc 0)" by (rule sint_less)
  also have "\<dots> \<le> (2 :: int) ^ LENGTH('a)" by (rule power_increasing) simp_all
  finally have "take_bit LENGTH('a) (sint a) = sint a"
    using assms by (simp only: take_bit_int_eq_self)
  then show ?thesis by (simp only: uint_sint)
qed

lemma sint_scast_c_int: "sint (scast a :: size_t) = sint a" for a :: c_int
proof -
  have "- (2 ^ 31) \<le> sint a" "sint a < 2 ^ 31"
    using sint_greater_eq [of a] sint_less [of a] by simp_all
  moreover have "(2 :: int) ^ 31 \<le> 2 ^ 63" by simp
  ultimately have "- (2 ^ 63) \<le> sint a" "sint a < 2 ^ 63" by linarith+
  then have "signed_take_bit 63 (sint a) = sint a"
    by (rule signed_take_bit_int_eq_self)
  then show ?thesis by (simp add: signed_scast_eq)
qed

lemma unat_scast_nonneg:
  fixes a :: c_int
  assumes "0 \<le> sint a"
  shows "unat (scast a :: size_t) = nat (sint a)"
proof -
  have "0 \<le> sint (scast a :: size_t)" using assms by (simp only: sint_scast_c_int)
  then have "uint (scast a :: size_t) = sint (scast a :: size_t)" by (rule uint_nonneg_sint)
  then have "uint (scast a :: size_t) = sint a" by (simp only: sint_scast_c_int)
  then show ?thesis by (simp only: unat_eq_nat_uint)
qed

lemma sint_nonneg_of_unat_less:
  fixes x :: size_t
  assumes "unat x < 2 ^ 63"
  shows "0 \<le> sint x"
proof -
  from assms have "int (unat x) < int (2 ^ 63)" by (simp only: of_nat_less_iff)
  then have "uint x < 2 ^ 63" by simp
  moreover have "(- (2 ^ 63) :: int) \<le> 0" by simp
  then have "- (2 ^ 63) \<le> uint x"
    using uint_ge_0 [of x] by (rule order_trans)
  ultimately have "signed_take_bit 63 (uint x) = uint x"
    by (intro signed_take_bit_int_eq_self)
  moreover have "sint x = signed_take_bit (LENGTH(64) - Suc 0) (uint x)" by (rule sint_uint)
  ultimately have "sint x = uint x" by simp
  then show ?thesis by simp
qed

lemma int_mul_Some:
  assumes "int_mul a b = Some n"
  shows "n = a * b \<and> sint n = sint a * sint b \<and> sint a * sint b < 2 ^ 31"
proof -
  from assms have r: "- (2 ^ 31) \<le> sint a * sint b" "sint a * sint b < 2 ^ 31" and n: "n = a * b"
    by (auto simp: int_mul_def split: if_splits)
  have "sint (a * b) = signed_take_bit 31 (sint a * sint b)"
    by (simp add: sint_word_mult)
  also have "\<dots> = sint a * sint b"
    using r by (simp only: signed_take_bit_int_eq_self)
  finally show ?thesis using n r by simp
qed

lemma vertex_count_size_t:
  fixes a b :: c_int
  assumes a: "0 \<le> sint a" and b: "0 \<le> sint b" and m: "int_mul a b = Some n"
  shows "unat (scast a * scast b :: size_t) = nat (sint a * sint b)"
    and "unat (4 * 4 * (scast a * scast b) :: size_t) = 4 * nat (sint a * sint b) * 4"
    and "0 \<le> sint (4 * 4 * (scast a * scast b) :: size_t)"
    and "unat n = nat (sint a * sint b)"
proof -
  from int_mul_Some [OF m] have lt: "sint a * sint b < 2 ^ 31" and sn: "sint n = sint a * sint b"
    by blast+
  let ?v = "nat (sint a * sint b)"
  let ?x = "scast a * scast b :: size_t"
  have v: "?v < 2 ^ 31" using lt by (simp add: nat_less_iff)
  have p: "unat (scast a :: size_t) * unat (scast b :: size_t) = ?v"
    using a b by (simp add: unat_scast_nonneg nat_mult_distrib)
  have "unat ?x = unat (scast a :: size_t) * unat (scast b :: size_t) mod 2 ^ LENGTH(64)"
    by (rule unat_word_ariths)
  with p v show vc: "unat ?x = ?v" by simp
  have "unat (4 * 4 * ?x) = unat (4 * 4 :: size_t) * unat ?x mod 2 ^ LENGTH(64)"
    by (rule unat_word_ariths)
  with v show bytes: "unat (4 * 4 * ?x) = 4 * ?v * 4" by (simp add: vc)
  have "unat (4 * 4 * ?x) < 2 ^ 63"
    using v by (simp only: bytes) simp
  then show "0 \<le> sint (4 * 4 * ?x)" by (rule sint_nonneg_of_unat_less)
  from a b have "0 \<le> sint n" by (simp add: sn)
  then have "uint n = sint n" by (rule uint_nonneg_sint)
  then show "unat n = ?v" by (simp only: unat_eq_nat_uint sn)
qed

section \<open>The first call of \<open>Render\<close> that returns\<close>

lemma filter_is_dispatch_tesselate_events:
  "length (filter is_dispatch (tesselate_events r p t q v)) = 1"
  by (simp add: tesselate_events_def is_dispatch_def Let_def)

lemma filter_is_dispatch_draw_events: "filter is_dispatch (draw_events this) = []"
  by (simp add: draw_events_def is_dispatch_def)

lemma filter_is_dispatch_output:
  "\<forall>e \<in> set evs. is_output e \<Longrightarrow> filter is_dispatch evs = []"
proof -
  have "is_output e \<Longrightarrow> \<not> is_dispatch e" for e
    by (cases e) (simp_all add: is_output_def is_dispatch_def)
  then show "\<forall>e \<in> set evs. is_output e \<Longrightarrow> filter is_dispatch evs = []"
    by (auto simp: filter_empty_conv)
qed

lemma filter_is_draw_output:
  "\<forall>e \<in> set evs. is_output e \<Longrightarrow> filter is_draw evs = []"
  by (auto simp: filter_empty_conv no_draw_in_output)

lemma filter_is_draw_tesselate_events: "filter is_draw (tesselate_events r p t q v) = []"
  by (simp add: tesselate_events_def is_draw_def Let_def)

lemma Render_first_success:
  assumes nt: "\<not> m_tesselated this"
    and r: "Render (this, w) = (Returns (), (this1, w1))"
  shows "\<exists>evs0 n.
      (\<forall>e \<in> set evs0. is_output e)
      \<and> int_mul (m_phi_slices this) (m_theta_slices this) = Some n
      \<and> m_radius this1 = m_radius this \<and> m_phi_slices this1 = m_phi_slices this
      \<and> m_theta_slices this1 = m_theta_slices this
      \<and> m_vertex_count this1 = n \<and> m_initialized this1 \<and> m_tesselated this1
      \<and> m_vertex_buffer this1 =
          Opengl_buffer (get_context (m_command_queue this1)) (Suc (length (gl_buffers w)))
      \<and> events w1 = events w @ evs0
          @ tesselate_events (m_radius this) (scast (m_phi_slices this))
              (scast (m_theta_slices this)) (m_command_queue this1) (Suc (length (gl_buffers w)))
          @ draw_events this1
      \<and> length (gl_buffers w1) = Suc (length (gl_buffers w))
      \<and> take (length (gl_buffers w)) (gl_buffers w1) = gl_buffers w
      \<and> (0 \<le> sint (4 * 4 * (scast (m_phi_slices this) * scast (m_theta_slices this)) :: size_t)
           \<longrightarrow> buffer_bytes (gl_buffers w1 ! length (gl_buffers w))
                 = 4 * 4 * (scast (m_phi_slices this) * scast (m_theta_slices this))
             \<and> length (buffer_cells (gl_buffers w1 ! length (gl_buffers w)))
                 = unat (4 * 4 * (scast (m_phi_slices this) * scast (m_theta_slices this))
                          :: size_t) div 16)"
proof -
  obtain out0 this0 w0 where i: "Render_initialize (this, w) = (out0, (this0, w0))"
    by (metis prod.exhaust)
  from Render_initialize_effect [OF i] obtain evs0 where
    e0: "events w0 = events w @ evs0" "\<forall>e \<in> set evs0. is_output e"
    and same: "m_tesselated this0 = m_tesselated this" "m_radius this0 = m_radius this"
      "m_phi_slices this0 = m_phi_slices this" "m_theta_slices this0 = m_theta_slices this"
      "gl_buffers w0 = gl_buffers w"
    and ini: "out0 = Returns () \<longrightarrow> m_initialized this0"
    by blast
  from r i have o0: "out0 = Returns ()"
    by (cases out0) (auto simp: Render_eq)
  with ini have ini0: "m_initialized this0" by simp
  from nt same have nt0: "\<not> m_tesselated this0" by simp
  obtain n where n: "int_mul (m_phi_slices this0) (m_theta_slices this0) = Some n"
    using r i o0 nt0
    by (cases "int_mul (m_phi_slices this0) (m_theta_slices this0)")
      (auto simp: Render_eq Render_tesselate_overflow)
  let ?T = "tesselate_sphere (m_radius this0) (scast (m_phi_slices this0))
              (scast (m_theta_slices this0)) (m_command_queue this0) w0"
  obtain tout wt where t: "?T = (tout, wt)" by (metis prod.exhaust)
  from r i o0 nt0 n t obtain b where tb: "tout = Returns b"
    by (cases tout) (auto simp: Render_eq Render_tesselate_run)
  from r i o0 nt0 n t tb
  have this1: "this1 = this0\<lparr>m_vertex_count := n, m_vertex_buffer := b, m_tesselated := True\<rparr>"
    and w1: "w1 = wt\<lparr>events := events wt @ draw_events this1,
                     array_buffer_binding := get_opengl_object (m_vertex_buffer this1)\<rparr>"
    by (auto simp: Render_eq Render_tesselate_run Render_draw_eq)
  from tesselate_sphere_returns [OF t [unfolded tb]]
  have b: "b = Opengl_buffer (get_context (m_command_queue this0)) (Suc (length (gl_buffers w0)))"
    and et: "events wt = events w0 @ tesselate_events (m_radius this0)
        (scast (m_phi_slices this0)) (scast (m_theta_slices this0)) (m_command_queue this0)
        (Suc (length (gl_buffers w0)))"
    and bufs: "length (gl_buffers wt) = Suc (length (gl_buffers w0))"
      "take (length (gl_buffers w0)) (gl_buffers wt) = gl_buffers w0"
      "0 \<le> sint (4 * 4 * (scast (m_phi_slices this0) * scast (m_theta_slices this0)) :: size_t)
         \<longrightarrow> buffer_bytes (gl_buffers wt ! length (gl_buffers w0))
               = 4 * 4 * (scast (m_phi_slices this0) * scast (m_theta_slices this0))
           \<and> length (buffer_cells (gl_buffers wt ! length (gl_buffers w0)))
               = unat (4 * 4 * (scast (m_phi_slices this0) * scast (m_theta_slices this0))
                        :: size_t) div 16"
    by blast+
  have "(\<forall>e \<in> set evs0. is_output e)
      \<and> int_mul (m_phi_slices this) (m_theta_slices this) = Some n
      \<and> m_radius this1 = m_radius this \<and> m_phi_slices this1 = m_phi_slices this
      \<and> m_theta_slices this1 = m_theta_slices this
      \<and> m_vertex_count this1 = n \<and> m_initialized this1 \<and> m_tesselated this1
      \<and> m_vertex_buffer this1 =
          Opengl_buffer (get_context (m_command_queue this1)) (Suc (length (gl_buffers w)))
      \<and> events w1 = events w @ evs0
          @ tesselate_events (m_radius this) (scast (m_phi_slices this))
              (scast (m_theta_slices this)) (m_command_queue this1) (Suc (length (gl_buffers w)))
          @ draw_events this1
      \<and> length (gl_buffers w1) = Suc (length (gl_buffers w))
      \<and> take (length (gl_buffers w)) (gl_buffers w1) = gl_buffers w
      \<and> (0 \<le> sint (4 * 4 * (scast (m_phi_slices this) * scast (m_theta_slices this)) :: size_t)
           \<longrightarrow> buffer_bytes (gl_buffers w1 ! length (gl_buffers w))
                 = 4 * 4 * (scast (m_phi_slices this) * scast (m_theta_slices this))
             \<and> length (buffer_cells (gl_buffers w1 ! length (gl_buffers w)))
                 = unat (4 * 4 * (scast (m_phi_slices this) * scast (m_theta_slices this))
                          :: size_t) div 16)"
    using e0 same ini0 n b et bufs
    by (simp add: this1 w1)
  then show ?thesis by blast
qed

section \<open>Calls of \<open>Render\<close> after the tesselation\<close>

lemma Render_calls_tesselated:
  assumes "m_initialized this" and "m_tesselated this"
  shows "\<exists>w'. Render_calls fs (this, w) = Some (this, w')
           \<and> events w' = events w @ concat (replicate (length fs) (draw_events this))
           \<and> gl_buffers w' = gl_buffers w"
proof (induction fs arbitrary: w)
  case Nil
  show ?case by simp
next
  case (Cons f fs)
  let ?w1 = "w\<lparr>fails := f, events := events w @ draw_events this,
               array_buffer_binding := get_opengl_object (m_vertex_buffer this)\<rparr>"
  have "Render (this, w\<lparr>fails := f\<rparr>) = (Returns (), (this, ?w1))"
    using assms by (simp add: Render_tesselated)
  then have "Render_calls (f # fs) (this, w) = Render_calls fs (this, ?w1)"
    by simp
  with Cons.IH [of ?w1] show ?case by auto
qed

lemma Render_tesselated_success:
  assumes t: "m_tesselated this"
    and r: "Render (this, w) = (Returns (), (this1, w1))"
  shows "\<exists>evs0.
      (\<forall>e \<in> set evs0. is_output e)
      \<and> m_radius this1 = m_radius this \<and> m_phi_slices this1 = m_phi_slices this
      \<and> m_theta_slices this1 = m_theta_slices this
      \<and> m_initialized this1 \<and> m_tesselated this1
      \<and> events w1 = events w @ evs0 @ draw_events this1
      \<and> gl_buffers w1 = gl_buffers w"
proof -
  obtain out0 this0 w0 where i: "Render_initialize (this, w) = (out0, (this0, w0))"
    by (metis prod.exhaust)
  from Render_initialize_effect [OF i] obtain evs0 where
    e0: "events w0 = events w @ evs0" "\<forall>e \<in> set evs0. is_output e"
    and same: "m_tesselated this0 = m_tesselated this" "m_radius this0 = m_radius this"
      "m_phi_slices this0 = m_phi_slices this" "m_theta_slices this0 = m_theta_slices this"
      "gl_buffers w0 = gl_buffers w"
    and ini: "out0 = Returns () \<longrightarrow> m_initialized this0"
    by blast
  from r i have o0: "out0 = Returns ()"
    by (cases out0) (auto simp: Render_eq)
  with ini have ini0: "m_initialized this0" by simp
  from t same have t0: "m_tesselated this0" by simp
  from r i o0 t0 have "this1 = this0"
    and "w1 = w0\<lparr>events := events w0 @ draw_events this0,
                  array_buffer_binding := get_opengl_object (m_vertex_buffer this0)\<rparr>"
    by (auto simp: Render_eq Render_tesselate_skip Render_draw_eq)
  with e0 same ini0 t0 show ?thesis by auto
qed

text \<open>
  C4, as amended. Take two consecutive calls of \<open>Render\<close>, the first of which returns;
  nothing changes the mapper between them (the library may fail differently in the
  second call). Then the second call returns, leaves the mapper and every buffer as the
  first call left them (the parameters are those before the first call), and appends
  the four events of the draw block, nothing else: it enqueues no dispatch. The two
  calls together enqueue one dispatch, the first call's, when the mapper was not
  tesselated before them, and none when it was.
\<close>

theorem second_Render_only_draws:
  assumes "Render (this, w) = (Returns (), (this1, w1))"
    and "Render (this1, w1\<lparr>fails := f\<rparr>) = (out2, (this2, w2))"
  shows "out2 = Returns () \<and> this2 = this1
       \<and> m_radius this1 = m_radius this \<and> m_phi_slices this1 = m_phi_slices this
       \<and> m_theta_slices this1 = m_theta_slices this
       \<and> gl_buffers w2 = gl_buffers w1
       \<and> new_events w1 w2 = draw_events this1
       \<and> filter is_dispatch (new_events w1 w2) = []
       \<and> length (filter is_dispatch (new_events w w1)) = (if m_tesselated this then 0 else 1)
       \<and> length (filter is_dispatch (new_events w w2)) = (if m_tesselated this then 0 else 1)"
proof -
  have first: "\<exists>evs. events w1 = events w @ evs
      \<and> length (filter is_dispatch evs) = (if m_tesselated this then 0 else 1)
      \<and> m_radius this1 = m_radius this \<and> m_phi_slices this1 = m_phi_slices this
      \<and> m_theta_slices this1 = m_theta_slices this
      \<and> m_initialized this1 \<and> m_tesselated this1"
  proof (cases "m_tesselated this")
    case True
    from Render_tesselated_success [OF True assms(1)] obtain evs0 where
      "\<forall>e \<in> set evs0. is_output e"
      "m_radius this1 = m_radius this" "m_phi_slices this1 = m_phi_slices this"
      "m_theta_slices this1 = m_theta_slices this"
      "m_initialized this1" "m_tesselated this1"
      "events w1 = events w @ evs0 @ draw_events this1"
      by blast
    with True show ?thesis
      by (simp add: filter_is_dispatch_output filter_is_dispatch_draw_events)
  next
    case False
    from Render_first_success [OF False assms(1)] obtain evs0 where
      "\<forall>e \<in> set evs0. is_output e"
      "m_radius this1 = m_radius this" "m_phi_slices this1 = m_phi_slices this"
      "m_theta_slices this1 = m_theta_slices this"
      "m_initialized this1" "m_tesselated this1"
      "events w1 = events w @ evs0
          @ tesselate_events (m_radius this) (scast (m_phi_slices this))
              (scast (m_theta_slices this)) (m_command_queue this1) (Suc (length (gl_buffers w)))
          @ draw_events this1"
      by blast
    with False show ?thesis
      by (simp add: filter_is_dispatch_output filter_is_dispatch_tesselate_events
          filter_is_dispatch_draw_events)
  qed
  then obtain evs where e1: "events w1 = events w @ evs"
    and d1: "length (filter is_dispatch evs) = (if m_tesselated this then 0 else 1)"
    and same: "m_radius this1 = m_radius this" "m_phi_slices this1 = m_phi_slices this"
      "m_theta_slices this1 = m_theta_slices this"
    and flags: "m_initialized this1" "m_tesselated this1"
    by blast
  from assms(2) flags have second: "out2 = Returns ()" "this2 = this1"
    "gl_buffers w2 = gl_buffers w1" "events w2 = events w1 @ draw_events this1"
    by (auto simp: Render_tesselated)
  from e1 have n1: "new_events w w1 = evs"
    by (simp add: new_events_def)
  from second(4) have n2: "new_events w1 w2 = draw_events this1"
    by (simp add: new_events_def)
  from e1 second(4) have n12: "new_events w w2 = evs @ draw_events this1"
    by (simp add: new_events_def)
  from second same n1 n2 n12 d1 show ?thesis
    by (simp add: filter_is_dispatch_draw_events)
qed

theorem second_Render_only_draws_witness:
  "(let W = sample_world sharing_device no_failure;
        R1 = Render (sample_mapper, W);
        R2 = Render (fst (snd R1), (snd (snd R1))\<lparr>fails := build_fails\<rparr>)
    in \<not> m_tesselated sample_mapper \<and> fst R1 = Returns () \<and> fst R2 = Returns ()
     \<and> fst (snd R2) = fst (snd R1)
     \<and> gl_buffers (snd (snd R2)) = gl_buffers (snd (snd R1))
     \<and> new_events (snd (snd R1)) (snd (snd R2)) =
         [GL_EnableClientState, GL_BindBuffer 1, GL_VertexPointer 4 16, GL_DrawArrays 4]
     \<and> length (filter is_dispatch (new_events W (snd (snd R2)))) = 1)"
proof -
  let ?W = "sample_world sharing_device no_failure"
  let ?R1 = "Render (sample_mapper, ?W)"
  let ?R2 = "Render (fst (snd ?R1), (snd (snd ?R1))\<lparr>fails := build_fails\<rparr>)"
  have nt: "\<not> m_tesselated sample_mapper"
    by (simp add: sample_defs)
  have o1: "fst ?R1 = Returns ()"
    by (simp add: eval_defs)
  then have r1: "?R1 = (Returns (), (fst (snd ?R1), snd (snd ?R1)))"
    by (metis prod.collapse)
  have r2: "?R2 = (fst ?R2, (fst (snd ?R2), snd (snd ?R2)))"
    by simp
  have d: "draw_events (fst (snd ?R1)) =
      [GL_EnableClientState, GL_BindBuffer 1, GL_VertexPointer 4 16, GL_DrawArrays 4]"
    by (simp add: eval_defs draw_events_def)
  from second_Render_only_draws [OF r1 r2] d o1 nt show ?thesis
    by (simp only: Let_def simp_thms if_False)
qed

text \<open>The sample mapper when the release of the first buffer fails: the first two calls.\<close>

lemma failed_release_first_call:
  "Render (sample_mapper, sample_world sharing_device release_fails) =
     (Raises (OpenclError (- 5)),
      (sample_mapper\<lparr>m_vertex_count := 4, m_initialized := True,
          m_context := Context sharing_device,
          m_command_queue := Command_queue (Context sharing_device) sharing_device\<rparr>,
       (sample_world sharing_device release_fails)
         \<lparr>events := [LoadExtension ''GL_ARB_vertex_buffer_object'', Cout ''device: gpu'']
            @ take 6 (tesselate_events 0x40A00000 2 2
                        (Command_queue (Context sharing_device) sharing_device) 1),
          gl_buffers := [\<lparr>buffer_bytes = 64, buffer_cells =
            [Some (Float4 1084227832 1084259525 1084259401 0x3F800000),
             Some (Float4 1084227834 1084259527 1084259913 0x3F800000),
             Some (Float4 1084227834 1084260037 1084259401 0x3F800000),
             Some (Float4 1084227836 1084260039 1084259913 0x3F800000)]\<rparr>]\<rparr>))"
  by (simp add: eval_defs replicate_4)

lemma failed_release_second_call:
  "Render
     (sample_mapper\<lparr>m_vertex_count := 4, m_initialized := True,
          m_context := Context sharing_device,
          m_command_queue := Command_queue (Context sharing_device) sharing_device\<rparr>,
       (sample_world sharing_device release_fails)
         \<lparr>events := [LoadExtension ''GL_ARB_vertex_buffer_object'', Cout ''device: gpu'']
            @ take 6 (tesselate_events 0x40A00000 2 2
                        (Command_queue (Context sharing_device) sharing_device) 1),
          gl_buffers := [\<lparr>buffer_bytes = 64, buffer_cells =
            [Some (Float4 1084227832 1084259525 1084259401 0x3F800000),
             Some (Float4 1084227834 1084259527 1084259913 0x3F800000),
             Some (Float4 1084227834 1084260037 1084259401 0x3F800000),
             Some (Float4 1084227836 1084260039 1084259913 0x3F800000)]\<rparr>]\<rparr>) =
     (Returns (),
      (sample_mapper\<lparr>m_vertex_count := 4, m_initialized := True, m_tesselated := True,
          m_context := Context sharing_device,
          m_command_queue := Command_queue (Context sharing_device) sharing_device,
          m_vertex_buffer := Opengl_buffer (Context sharing_device) 2\<rparr>,
       (sample_world sharing_device release_fails)
         \<lparr>events := [LoadExtension ''GL_ARB_vertex_buffer_object'', Cout ''device: gpu'']
            @ take 6 (tesselate_events 0x40A00000 2 2
                        (Command_queue (Context sharing_device) sharing_device) 1)
            @ tesselate_events 0x40A00000 2 2
                (Command_queue (Context sharing_device) sharing_device) 2
            @ [GL_EnableClientState, GL_BindBuffer 2, GL_VertexPointer 4 16, GL_DrawArrays 4],
          gl_buffers := [\<lparr>buffer_bytes = 64, buffer_cells =
            [Some (Float4 1084227832 1084259525 1084259401 0x3F800000),
             Some (Float4 1084227834 1084259527 1084259913 0x3F800000),
             Some (Float4 1084227834 1084260037 1084259401 0x3F800000),
             Some (Float4 1084227836 1084260039 1084259913 0x3F800000)]\<rparr>,
            \<lparr>buffer_bytes = 64, buffer_cells =
            [Some (Float4 1084227832 1084259525 1084259401 0x3F800000),
             Some (Float4 1084227834 1084259527 1084259913 0x3F800000),
             Some (Float4 1084227834 1084260037 1084259401 0x3F800000),
             Some (Float4 1084227836 1084260039 1084259913 0x3F800000)]\<rparr>],
          array_buffer_binding := 2\<rparr>))"
  by (simp add: eval_defs replicate_4)

text \<open>
  C4 as stated fails. When the release of the first buffer fails, the first call of
  \<open>Render\<close> throws after its dispatch and leaves the mapper not tesselated; the second
  call, with the same parameters, tesselates again, into a second buffer: the two calls
  enqueue two dispatches, one of them in the second call. And the second and third
  calls of a run without failures enqueue no dispatch at all.
\<close>

theorem failed_release_dispatches_twice:
  "(let W = sample_world sharing_device release_fails;
        R1 = Render (sample_mapper, W);
        R2 = Render (snd R1)
    in fst R1 = Raises (OpenclError (- 5)) \<and> fst R2 = Returns ()
     \<and> \<not> m_tesselated (fst (snd R1))
     \<and> m_radius (fst (snd R1)) = m_radius sample_mapper
     \<and> m_phi_slices (fst (snd R1)) = m_phi_slices sample_mapper
     \<and> m_theta_slices (fst (snd R1)) = m_theta_slices sample_mapper
     \<and> length (filter is_dispatch (new_events W (snd (snd R1)))) = 1
     \<and> length (filter is_dispatch (new_events (snd (snd R1)) (snd (snd R2)))) = 1
     \<and> length (filter is_dispatch (new_events W (snd (snd R2)))) = 2
     \<and> length (gl_buffers (snd (snd R1))) = 1 \<and> length (gl_buffers (snd (snd R2))) = 2)
   \<and> (let W = sample_world sharing_device no_failure;
          R1 = Render (sample_mapper, W);
          R2 = Render (snd R1);
          R3 = Render (snd R2)
      in fst R1 = Returns () \<and> fst R2 = Returns () \<and> fst R3 = Returns ()
       \<and> filter is_dispatch (new_events (snd (snd R1)) (snd (snd R3))) = [])"
proof
  show "let W = sample_world sharing_device release_fails;
        R1 = Render (sample_mapper, W);
        R2 = Render (snd R1)
    in fst R1 = Raises (OpenclError (- 5)) \<and> fst R2 = Returns ()
     \<and> \<not> m_tesselated (fst (snd R1))
     \<and> m_radius (fst (snd R1)) = m_radius sample_mapper
     \<and> m_phi_slices (fst (snd R1)) = m_phi_slices sample_mapper
     \<and> m_theta_slices (fst (snd R1)) = m_theta_slices sample_mapper
     \<and> length (filter is_dispatch (new_events W (snd (snd R1)))) = 1
     \<and> length (filter is_dispatch (new_events (snd (snd R1)) (snd (snd R2)))) = 1
     \<and> length (filter is_dispatch (new_events W (snd (snd R2)))) = 2
     \<and> length (gl_buffers (snd (snd R1))) = 1 \<and> length (gl_buffers (snd (snd R2))) = 2"
    unfolding Let_def failed_release_first_call snd_conv fst_conv failed_release_second_call
    by (simp add: new_events_def is_dispatch_def tesselate_events_def sample_mapper_def
        sample_world_def New_def Let_def)
  let ?W = "sample_world sharing_device no_failure"
  let ?R1 = "Render (sample_mapper, ?W)"
  have o1: "fst ?R1 = Returns ()"
    by (simp add: eval_defs)
  have fl: "m_initialized (fst (snd ?R1))" "m_tesselated (fst (snd ?R1))"
    by (simp_all add: eval_defs)
  have s: "snd ?R1 = (fst (snd ?R1), snd (snd ?R1))"
    by simp
  let ?M = "fst (snd ?R1)"
  let ?w2 = "(snd (snd ?R1))\<lparr>events := events (snd (snd ?R1)) @ draw_events ?M,
                array_buffer_binding := get_opengl_object (m_vertex_buffer ?M)\<rparr>"
  have r2: "Render (snd ?R1) = (Returns (), (?M, ?w2))"
    using Render_tesselated [OF fl, of "snd (snd ?R1)"] by simp
  have r3: "Render (?M, ?w2) = (Returns (), (?M, ?w2\<lparr>events := events ?w2 @ draw_events ?M,
                array_buffer_binding := get_opengl_object (m_vertex_buffer ?M)\<rparr>))"
    by (rule Render_tesselated [OF fl])
  show "let W = sample_world sharing_device no_failure;
          R1 = Render (sample_mapper, W);
          R2 = Render (snd R1);
          R3 = Render (snd R2)
      in fst R1 = Returns () \<and> fst R2 = Returns () \<and> fst R3 = Returns ()
       \<and> filter is_dispatch (new_events (snd (snd R1)) (snd (snd R3))) = []"
    unfolding Let_def r2 snd_conv fst_conv r3
    using o1 by (simp add: new_events_def filter_is_dispatch_draw_events)
qed

text \<open>
  C7. Take a mapper that is not tesselated, with slice counts that are not negative, and
  a first call of \<open>Render\<close> that returns. The call creates one buffer, of
  \<open>4 * vertex_count * sizeof(float)\<close> bytes, that is \<open>vertex_count\<close> vertices of four floats,
  where \<open>vertex_count = phi_slices * theta_slices\<close>; it ends with the draw block, which
  binds that buffer and draws \<open>vertex_count\<close> points, and issues no other draw. Every
  later call, however many and whatever the library does, appends the same draw block
  and leaves the buffers as they are.
\<close>

theorem buffer_size_and_draw_count:
  assumes "\<not> m_tesselated this"
    and "0 \<le> sint (m_phi_slices this)" and "0 \<le> sint (m_theta_slices this)"
    and "Render (this, w) = (Returns (), (this1, w1))"
    and "Render_calls fs (this1, w1) = Some (this2, w2)"
  shows
    "(let vertex_count = nat (sint (m_phi_slices this) * sint (m_theta_slices this));
          vbo = get_opengl_object (m_vertex_buffer this1);
          draw = [GL_EnableClientState, GL_BindBuffer vbo, GL_VertexPointer 4 16,
                  GL_DrawArrays (m_vertex_count this1)]
      in vbo = Suc (length (gl_buffers w)) \<and> length (gl_buffers w1) = vbo
       \<and> unat (buffer_bytes (gl_buffers w1 ! (vbo - 1))) = 4 * vertex_count * 4
       \<and> length (buffer_cells (gl_buffers w1 ! (vbo - 1))) = vertex_count
       \<and> unat (m_vertex_count this1) = vertex_count
       \<and> (\<exists>evs. new_events w w1 = evs @ draw \<and> filter is_draw evs = [])
       \<and> new_events w1 w2 = concat (replicate (length fs) draw)
       \<and> gl_buffers w2 = gl_buffers w1 \<and> this2 = this1)"
proof -
  let ?P = "scast (m_phi_slices this) :: size_t" and ?T = "scast (m_theta_slices this) :: size_t"
  let ?v = "nat (sint (m_phi_slices this) * sint (m_theta_slices this))"
  from Render_first_success [OF assms(1,4)] obtain evs0 n where
    out: "\<forall>e \<in> set evs0. is_output e"
    and n: "int_mul (m_phi_slices this) (m_theta_slices this) = Some n"
    and vc: "m_vertex_count this1 = n"
    and flags: "m_initialized this1" "m_tesselated this1"
    and vb: "m_vertex_buffer this1 =
          Opengl_buffer (get_context (m_command_queue this1)) (Suc (length (gl_buffers w)))"
    and e1: "events w1 = events w @ evs0
          @ tesselate_events (m_radius this) ?P ?T (m_command_queue this1)
              (Suc (length (gl_buffers w)))
          @ draw_events this1"
    and len: "length (gl_buffers w1) = Suc (length (gl_buffers w))"
    and size: "0 \<le> sint (4 * 4 * (?P * ?T))
           \<longrightarrow> buffer_bytes (gl_buffers w1 ! length (gl_buffers w)) = 4 * 4 * (?P * ?T)
             \<and> length (buffer_cells (gl_buffers w1 ! length (gl_buffers w)))
                 = unat (4 * 4 * (?P * ?T)) div 16"
    by blast
  note a = vertex_count_size_t [OF assms(2,3) n]
  from size a(3) have bytes: "buffer_bytes (gl_buffers w1 ! length (gl_buffers w)) = 4 * 4 * (?P * ?T)"
    and cells: "length (buffer_cells (gl_buffers w1 ! length (gl_buffers w)))
                 = unat (4 * 4 * (?P * ?T)) div 16"
    by blast+
  have vbo: "get_opengl_object (m_vertex_buffer this1) = Suc (length (gl_buffers w))"
    by (simp add: vb get_opengl_object_def)
  have b1: "unat (buffer_bytes (gl_buffers w1 ! length (gl_buffers w))) = 4 * ?v * 4"
    by (simp only: bytes a(2))
  have c1: "length (buffer_cells (gl_buffers w1 ! length (gl_buffers w))) = ?v"
    by (simp only: cells a(2))
  have n1: "new_events w w1 = (evs0
          @ tesselate_events (m_radius this) ?P ?T (m_command_queue this1)
              (Suc (length (gl_buffers w)))) @ draw_events this1"
    using e1 by (simp add: new_events_def)
  have nd: "filter is_draw (evs0
          @ tesselate_events (m_radius this) ?P ?T (m_command_queue this1)
              (Suc (length (gl_buffers w)))) = []"
    by (simp add: filter_is_draw_output [OF out] filter_is_draw_tesselate_events)
  from Render_calls_tesselated [OF flags, of fs w1] assms(5)
  have later: "this2 = this1" "gl_buffers w2 = gl_buffers w1"
    "events w2 = events w1 @ concat (replicate (length fs) (draw_events this1))"
    by auto
  then have n2: "new_events w1 w2 = concat (replicate (length fs) (draw_events this1))"
    by (simp add: new_events_def)
  have d: "draw_events this1 = [GL_EnableClientState,
      GL_BindBuffer (Suc (length (gl_buffers w))), GL_VertexPointer 4 16,
      GL_DrawArrays (m_vertex_count this1)]"
    by (simp add: draw_events_def vbo)
  from n1 nd have "\<exists>evs. new_events w w1 = evs @ draw_events this1 \<and> filter is_draw evs = []"
    by blast
  with vbo len b1 c1 a(4) n2 later d vc show ?thesis
    by (simp add: Let_def)
qed

theorem buffer_size_and_draw_count_witness:
  "(let W = sample_world sharing_device no_failure;
        R1 = Render (sample_mapper, W);
        R2 = Render_calls [build_fails, no_failure] (snd R1)
    in \<not> m_tesselated sample_mapper \<and> 0 \<le> sint (m_phi_slices sample_mapper)
     \<and> 0 \<le> sint (m_theta_slices sample_mapper) \<and> fst R1 = Returns () \<and> R2 \<noteq> None
     \<and> get_opengl_object (m_vertex_buffer (fst (snd R1))) = 1
     \<and> unat (buffer_bytes (gl_buffers (snd (snd R1)) ! 0)) = 64
     \<and> length (buffer_cells (gl_buffers (snd (snd R1)) ! 0)) = 4
     \<and> new_events (snd (snd R1)) (snd (the R2)) =
         [GL_EnableClientState, GL_BindBuffer 1, GL_VertexPointer 4 16, GL_DrawArrays 4,
          GL_EnableClientState, GL_BindBuffer 1, GL_VertexPointer 4 16, GL_DrawArrays 4])"
proof -
  let ?W = "sample_world sharing_device no_failure"
  let ?R1 = "Render (sample_mapper, ?W)"
  let ?R2 = "Render_calls [build_fails, no_failure] (snd ?R1)"
  have h: "\<not> m_tesselated sample_mapper" "0 \<le> sint (m_phi_slices sample_mapper)"
    "0 \<le> sint (m_theta_slices sample_mapper)"
    by (simp_all add: sample_defs)
  have o1: "fst ?R1 = Returns ()"
    by (simp add: eval_defs)
  then have r1: "?R1 = (Returns (), (fst (snd ?R1), snd (snd ?R1)))"
    by (metis prod.collapse)
  have fl: "m_initialized (fst (snd ?R1))" "m_tesselated (fst (snd ?R1))"
    by (simp_all add: eval_defs)
  from Render_calls_tesselated [OF fl, of "[build_fails, no_failure]" "snd (snd ?R1)"]
  obtain w2 where r2: "Render_calls [build_fails, no_failure] (fst (snd ?R1), snd (snd ?R1))
      = Some (fst (snd ?R1), w2)"
    by blast
  then have r2': "?R2 = Some (fst (snd ?R1), w2)" by simp
  have vbo: "get_opengl_object (m_vertex_buffer (fst (snd ?R1))) = 1"
    and vc: "m_vertex_count (fst (snd ?R1)) = 4"
    and m: "nat (sint (m_phi_slices sample_mapper) * sint (m_theta_slices sample_mapper)) = 4"
    by (simp_all add: eval_defs)
  from buffer_size_and_draw_count [OF h r1 r2, unfolded Let_def vbo vc m]
  have "unat (buffer_bytes (gl_buffers (snd (snd ?R1)) ! 0)) = 64"
    "length (buffer_cells (gl_buffers (snd (snd ?R1)) ! 0)) = 4"
    "new_events (snd (snd ?R1)) w2 =
         [GL_EnableClientState, GL_BindBuffer 1, GL_VertexPointer 4 16, GL_DrawArrays 4,
          GL_EnableClientState, GL_BindBuffer 1, GL_VertexPointer 4 16, GL_DrawArrays 4]"
    by (simp_all add: numeral_2_eq_2)
  with h o1 vbo r2' show ?thesis
    by (simp add: Let_def)
qed

section \<open>The hand-off protocol along a run\<close>

lemma protocol_append:
  "protocol (xs @ ys) st = (case protocol xs st of None \<Rightarrow> None | Some st' \<Rightarrow> protocol ys st')"
  by (induction xs arbitrary: st) (auto split: option.splits)

lemma protocol_step_output: "is_output e \<Longrightarrow> protocol_step e st = Some st"
  by (cases e) (simp_all add: is_output_def protocol_step_def)

lemma protocol_output: "\<forall>e \<in> set evs. is_output e \<Longrightarrow> protocol evs st = Some st"
  by (induction evs) (simp_all add: protocol_step_output)

lemma protocol_tesselate_events:
  assumes "fst st v = Untouched"
  shows "protocol (take 4 (tesselate_events r p t q v)) st = Some (fst st, 0)"
    and "protocol (take 5 (tesselate_events r p t q v)) st = Some ((fst st)(v := Acquired q), 0)"
    and "protocol (take 6 (tesselate_events r p t q v)) st = Some ((fst st)(v := Dispatched q), 0)"
    and "protocol (tesselate_events r p t q v) st = Some ((fst st)(v := Released q), 0)"
  using assms
  by (simp_all add: tesselate_events_def tesselate_kernel_def protocol_step_def
      get_opengl_object_def is_released_def Let_def)

lemma protocol_draw_events:
  assumes "is_released (fst st (get_opengl_object (m_vertex_buffer this)))"
  shows "protocol (draw_events this) st
           = Some (fst st, get_opengl_object (m_vertex_buffer this))"
  using assms by (simp add: draw_events_def protocol_step_def)

lemma protocol_inv_fails: "protocol_inv (this, w\<lparr>fails := f\<rparr>) = protocol_inv (this, w)"
  by (simp add: protocol_inv_def)

lemma protocol_inv_draw:
  assumes inv: "protocol_inv (this, w)" and t: "m_tesselated this"
  shows "protocol_inv (this, w\<lparr>events := events w @ draw_events this,
                                array_buffer_binding := b\<rparr>)"
proof -
  from inv t obtain st where st: "protocol (events w) (\<lambda>v. Untouched, 0) = Some st"
    and fresh: "\<forall>v. length (gl_buffers w) < v \<longrightarrow> fst st v = Untouched"
    and rel: "is_released (fst st (get_opengl_object (m_vertex_buffer this)))"
    by (auto simp: protocol_inv_def)
  have "protocol (events w @ draw_events this) (\<lambda>v. Untouched, 0)
      = Some (fst st, get_opengl_object (m_vertex_buffer this))"
    by (simp add: protocol_append st protocol_draw_events [OF rel])
  with fresh rel show ?thesis
    by (auto simp: protocol_inv_def)
qed

lemma protocol_inv_tesselate:
  assumes inv: "protocol_inv (this, w)" and nt: "\<not> m_tesselated this"
    and t: "tesselate_sphere r p t q w = (tout, wt)"
  shows "case tout of
           Returns b \<Rightarrow>
             protocol_inv (this\<lparr>m_vertex_count := n, m_vertex_buffer := b, m_tesselated := True\<rparr>, wt)
         | Raises e \<Rightarrow> protocol_inv (this\<lparr>m_vertex_count := n\<rparr>, wt)
         | Undefined_behaviour \<Rightarrow> True"
proof -
  let ?v = "Suc (length (gl_buffers w))"
  let ?es = "tesselate_events r p t q ?v"
  from inv obtain st where st: "protocol (events w) (\<lambda>v. Untouched, 0) = Some st"
    and fresh: "\<forall>v. length (gl_buffers w) < v \<longrightarrow> fst st v = Untouched"
    by (auto simp: protocol_inv_def)
  from fresh have v: "fst st ?v = Untouched" by simp
  note pe = protocol_tesselate_events [OF v, of r p t q]
  from tesselate_sphere_events [OF t]
  consider
    (none) "events wt = events w" "gl_buffers wt = gl_buffers w"
      "tout \<noteq> Undefined_behaviour" "\<forall>b. tout \<noteq> Returns b"
    | (four) "length (gl_buffers wt) = ?v" "events wt = events w @ take 4 ?es"
      "tout \<noteq> Undefined_behaviour" "\<forall>b. tout \<noteq> Returns b"
    | (five) "length (gl_buffers wt) = ?v" "events wt = events w @ take 5 ?es"
      "tout \<noteq> Undefined_behaviour" "\<forall>b. tout \<noteq> Returns b"
    | (six) "length (gl_buffers wt) = ?v" "events wt = events w @ take 6 ?es"
      "\<forall>b. tout \<noteq> Returns b"
    | (all) "length (gl_buffers wt) = ?v" "events wt = events w @ ?es"
      "tout = Returns (Opengl_buffer (get_context q) ?v)"
    by blast
  then show ?thesis
  proof cases
    case none
    then obtain e where "tout = Raises e" by (cases tout) auto
    with none st fresh nt show ?thesis
      by (auto simp: protocol_inv_def)
  next
    case four
    then obtain e where e: "tout = Raises e" by (cases tout) auto
    have "protocol (events wt) (\<lambda>v. Untouched, 0) = Some (fst st, 0)"
      by (simp add: four(2) protocol_append st pe(1))
    with four(1) fresh nt show ?thesis
      by (auto simp: protocol_inv_def e)
  next
    case five
    then obtain e where e: "tout = Raises e" by (cases tout) auto
    have "protocol (events wt) (\<lambda>v. Untouched, 0) = Some ((fst st)(?v := Acquired q), 0)"
      by (simp add: five(2) protocol_append st pe(2))
    with five(1) fresh nt show ?thesis
      by (auto simp: protocol_inv_def e)
  next
    case six
    show ?thesis
    proof (cases tout)
      case (Raises e)
      have "protocol (events wt) (\<lambda>v. Untouched, 0) = Some ((fst st)(?v := Dispatched q), 0)"
        by (simp add: six(2) protocol_append st pe(3))
      with six(1) fresh nt show ?thesis
        by (auto simp: protocol_inv_def Raises)
    qed (use six in auto)
  next
    case all
    have "protocol (events wt) (\<lambda>v. Untouched, 0) = Some ((fst st)(?v := Released q), 0)"
      by (simp add: all(2) protocol_append st pe(4))
    with all(1) fresh show ?thesis
      by (auto simp: protocol_inv_def all(3) get_opengl_object_def is_released_def)
  qed
qed

lemma Render_protocol_inv:
  assumes inv: "protocol_inv (this, w)"
    and r: "Render (this, w) = (out, (this', w'))"
    and nub: "out \<noteq> Undefined_behaviour"
  shows "protocol_inv (this', w')"
proof -
  obtain out0 this0 w0 where i: "Render_initialize (this, w) = (out0, (this0, w0))"
    by (metis prod.exhaust)
  from Render_initialize_effect [OF i] obtain evs0 where
    e0: "events w0 = events w @ evs0" "\<forall>e \<in> set evs0. is_output e"
    and same: "m_tesselated this0 = m_tesselated this"
      "m_vertex_buffer this0 = m_vertex_buffer this" "gl_buffers w0 = gl_buffers w"
    and nub0: "out0 \<noteq> Undefined_behaviour"
    by blast
  from inv e0 same have inv0: "protocol_inv (this0, w0)"
    by (auto simp: protocol_inv_def protocol_append protocol_output)
  show ?thesis
  proof (cases out0)
    case (Raises e)
    with r i have "this' = this0" "w' = w0" by (auto simp: Render_eq)
    with inv0 show ?thesis by simp
  next
    case Undefined_behaviour
    with nub0 show ?thesis by simp
  next
    case (Returns u0)
    show ?thesis
    proof (cases "m_tesselated this0")
      case True
      with r i Returns have "this' = this0"
        "w' = w0\<lparr>events := events w0 @ draw_events this0,
                array_buffer_binding := get_opengl_object (m_vertex_buffer this0)\<rparr>"
        by (auto simp: Render_eq Render_tesselate_skip Render_draw_eq)
      with protocol_inv_draw [OF inv0 True] show ?thesis by simp
    next
      case False
      show ?thesis
      proof (cases "int_mul (m_phi_slices this0) (m_theta_slices this0)")
        case None
        with r i Returns False have "out = Undefined_behaviour"
          by (auto simp: Render_eq Render_tesselate_overflow)
        with nub show ?thesis by simp
      next
        case (Some n)
        let ?T = "tesselate_sphere (m_radius this0) (scast (m_phi_slices this0))
                    (scast (m_theta_slices this0)) (m_command_queue this0) w0"
        obtain tout wt where t: "?T = (tout, wt)" by (metis prod.exhaust)
        note pt = protocol_inv_tesselate [OF inv0 False t, of n]
        show ?thesis
        proof (cases tout)
          case (Returns b)
          let ?this2 = "this0\<lparr>m_vertex_count := n, m_vertex_buffer := b, m_tesselated := True\<rparr>"
          from pt Returns have inv2: "protocol_inv (?this2, wt)" by simp
          from r i \<open>out0 = Returns u0\<close> False Some t Returns
          have "this' = ?this2"
            "w' = wt\<lparr>events := events wt @ draw_events ?this2,
                    array_buffer_binding := get_opengl_object (m_vertex_buffer ?this2)\<rparr>"
            by (auto simp: Render_eq Render_tesselate_run Render_draw_eq)
          with protocol_inv_draw [OF inv2] show ?thesis by simp
        next
          case (Raises e)
          with r i \<open>out0 = Returns u0\<close> False Some t
          have "this' = this0\<lparr>m_vertex_count := n\<rparr>" "w' = wt"
            by (auto simp: Render_eq Render_tesselate_run)
          with pt Raises show ?thesis by simp
        next
          case Undefined_behaviour
          with r i \<open>out0 = Returns u0\<close> False Some t have "out = Undefined_behaviour"
            by (auto simp: Render_eq Render_tesselate_run)
          with nub show ?thesis by simp
        qed
      qed
    qed
  qed
qed

lemma Render_calls_protocol_inv:
  "protocol_inv sw \<Longrightarrow> Render_calls fs sw = Some sw' \<Longrightarrow> protocol_inv sw'"
proof (induction fs arbitrary: sw)
  case Nil
  then show ?case by simp
next
  case (Cons f fs)
  obtain this w where sw: "sw = (this, w)" by (cases sw)
  obtain out this1 w1 where r: "Render (this, w\<lparr>fails := f\<rparr>) = (out, (this1, w1))"
    by (metis prod.exhaust)
  from Cons.prems(2) sw r have nub: "out \<noteq> Undefined_behaviour"
    and rest: "Render_calls fs (this1, w1) = Some sw'"
    by (cases out; simp)+
  from Cons.prems(1) sw have "protocol_inv (this, w\<lparr>fails := f\<rparr>)"
    by (simp add: protocol_inv_fails)
  from Render_protocol_inv [OF this r nub] have "protocol_inv (this1, w1)" .
  from Cons.IH [OF this rest] show ?case .
qed

lemma queue_events_of_tesselate_events:
  "filter is_queue_event (tesselate_events r p t q v) =
     [CL_Acquire q (Opengl_buffer (get_context q) v),
      CL_NDRange q (tesselate_kernel r p t (Opengl_buffer (get_context q) v)) p t,
      CL_Release q (Opengl_buffer (get_context q) v)]"
  by (simp add: tesselate_events_def is_queue_event_def Let_def)

lemma queue_cycle_filter: "queue_cycle es k = queue_cycle (filter is_queue_event es) k"
  by (induction es arbitrary: k) (auto simp: is_queue_event_def split: event.splits)

lemma filter_is_queue_event_output:
  "\<forall>e \<in> set evs. is_output e \<Longrightarrow> filter is_queue_event evs = []"
proof -
  have "is_output e \<Longrightarrow> \<not> is_queue_event e" for e
    by (cases e) (simp_all add: is_output_def is_queue_event_def)
  then show "\<forall>e \<in> set evs. is_output e \<Longrightarrow> filter is_queue_event evs = []"
    by (auto simp: filter_empty_conv)
qed

lemma filter_is_queue_event_draws:
  "filter is_queue_event (concat (replicate k (draw_events this))) = []"
  by (induction k) (simp_all add: draw_events_def is_queue_event_def)

lemma strictly_alternating_after_first_success:
  assumes "events w = []"
    and "Render (this, w) = (Returns (), (this1, w1))"
    and "\<not> m_tesselated this"
    and "Render_calls fs (this1, w1) = Some (this2, w2)"
  shows "strictly_alternating (events w2)"
proof -
  from Render_first_success [OF assms(3,2)] obtain evs0 where
    out: "\<forall>e \<in> set evs0. is_output e"
    and flags: "m_initialized this1" "m_tesselated this1"
    and e1: "events w1 = events w @ evs0
          @ tesselate_events (m_radius this) (scast (m_phi_slices this))
              (scast (m_theta_slices this)) (m_command_queue this1) (Suc (length (gl_buffers w)))
          @ draw_events this1"
    by blast
  from Render_calls_tesselated [OF flags, of fs w1] assms(4)
  have "events w2 = events w1 @ concat (replicate (length fs) (draw_events this1))"
    by auto
  with e1 assms(1) have "filter is_queue_event (events w2) =
      filter is_queue_event (tesselate_events (m_radius this) (scast (m_phi_slices this))
              (scast (m_theta_slices this)) (m_command_queue this1) (Suc (length (gl_buffers w))))"
    using filter_is_queue_event_draws [of "Suc (length fs)" this1]
    by (simp add: filter_is_queue_event_output [OF out])
  then show ?thesis
    unfolding strictly_alternating_def
    by (subst queue_cycle_filter) (simp add: queue_events_of_tesselate_events)
qed

text \<open>
  C5, as amended. Take any run of \<open>Render\<close> calls on a mapper that starts untesselated, in
  a process with an empty trace, whatever calls of the library fail in which frame. The
  trace follows the hand-off protocol buffer by buffer: each buffer is acquired, then
  written by the dispatch, then released, in this order and on one queue, never acquired
  while it is acquired, and a draw call only ever reads a buffer after its release. A
  call of \<open>tesselate_sphere\<close> that returns has enqueued, on the queue it was given, the
  acquire of its buffer, the dispatch and the release, in this order and nothing else.
  And when the first call of \<open>Render\<close> returns, the whole queue holds acquire, dispatch
  and release in strict alternation, with one acquire outstanding at a time.
\<close>

theorem hand_off_protocol:
  assumes "\<not> m_tesselated this" and "events w = []"
    and "Render_calls fs (this, w) = Some (this', w')"
  shows "protocol_ok (events w')
       \<and> (\<forall>r p t q w0 b w1. tesselate_sphere r p t q w0 = (Returns b, w1) \<longrightarrow>
             filter is_queue_event (new_events w0 w1) =
               [CL_Acquire q b, CL_NDRange q (tesselate_kernel r p t b) p t, CL_Release q b])
       \<and> (\<forall>this1 w1. Render (this, w) = (Returns (), (this1, w1)) \<longrightarrow>
             (\<forall>fs' this2 w2. Render_calls fs' (this1, w1) = Some (this2, w2) \<longrightarrow>
                strictly_alternating (events w2)))"
proof (intro conjI)
  from assms(1,2) have "protocol_inv (this, w)"
    by (simp add: protocol_inv_def)
  from Render_calls_protocol_inv [OF this assms(3)] show "protocol_ok (events w')"
    by (auto simp: protocol_inv_def protocol_ok_def)
  show "\<forall>r p t q w0 b w1. tesselate_sphere r p t q w0 = (Returns b, w1) \<longrightarrow>
             filter is_queue_event (new_events w0 w1) =
               [CL_Acquire q b, CL_NDRange q (tesselate_kernel r p t b) p t, CL_Release q b]"
  proof (intro allI impI)
    fix r p t q w0 b w1
    assume "tesselate_sphere r p t q w0 = (Returns b, w1)"
    from tesselate_sphere_returns [OF this]
    have "b = Opengl_buffer (get_context q) (Suc (length (gl_buffers w0)))"
      and "events w1 = events w0 @ tesselate_events r p t q (Suc (length (gl_buffers w0)))"
      by blast+
    then show "filter is_queue_event (new_events w0 w1) =
        [CL_Acquire q b, CL_NDRange q (tesselate_kernel r p t b) p t, CL_Release q b]"
      by (simp add: new_events_def queue_events_of_tesselate_events)
  qed
  show "\<forall>this1 w1. Render (this, w) = (Returns (), (this1, w1)) \<longrightarrow>
          (\<forall>fs' this2 w2. Render_calls fs' (this1, w1) = Some (this2, w2) \<longrightarrow>
             strictly_alternating (events w2))"
    using strictly_alternating_after_first_success [OF assms(2) _ assms(1)] by blast
qed

section \<open>A run with a failed dispatch\<close>

text \<open>
  The sample mapper in three frames: in the first the dispatch fails, after the acquire;
  in the second nothing fails; in the third the program build would fail, but is not
  reached. The first buffer stays acquired, the second is the one drawn.
\<close>

lemma failed_dispatch_run:
  "map_option (\<lambda>sw. events (snd sw))
     (Render_calls [dispatch_fails, no_failure, build_fails]
        (sample_mapper, sample_world sharing_device no_failure)) =
   Some (let Q = Command_queue (Context sharing_device) sharing_device;
             B1 = Opengl_buffer (Context sharing_device) 1;
             B2 = Opengl_buffer (Context sharing_device) 2
         in [LoadExtension ''GL_ARB_vertex_buffer_object'', Cout ''device: gpu'',
             GL_GenBuffers 1, GL_BindBuffer 1, GL_BufferData 64, GL_BindBuffer 0,
             CL_Acquire Q B1,
             GL_GenBuffers 2, GL_BindBuffer 2, GL_BufferData 64, GL_BindBuffer 0,
             CL_Acquire Q B2, CL_NDRange Q (tesselate_kernel 0x40A00000 2 2 B2) 2 2,
             CL_Release Q B2,
             GL_EnableClientState, GL_BindBuffer 2, GL_VertexPointer 4 16, GL_DrawArrays 4,
             GL_EnableClientState, GL_BindBuffer 2, GL_VertexPointer 4 16, GL_DrawArrays 4])"
  by (simp add: eval_defs)

theorem hand_off_protocol_witness:
  "(let W = sample_world sharing_device no_failure;
        Q = Command_queue (Context sharing_device) sharing_device;
        B1 = Opengl_buffer (Context sharing_device) 1;
        B2 = Opengl_buffer (Context sharing_device) 2;
        R = Render_calls [dispatch_fails, no_failure, build_fails] (sample_mapper, W);
        T = tesselate_sphere 0x40A00000 2 2 Q W;
        R1 = Render (sample_mapper, W);
        R2 = Render_calls [build_fails] (snd R1)
    in \<not> m_tesselated sample_mapper \<and> events W = [] \<and> R \<noteq> None
     \<and> protocol_ok (events (snd (the R)))
     \<and> filter is_queue_event (events (snd (the R))) =
         [CL_Acquire Q B1, CL_Acquire Q B2,
          CL_NDRange Q (tesselate_kernel 0x40A00000 2 2 B2) 2 2, CL_Release Q B2]
     \<and> fst T = Returns B1
     \<and> filter is_queue_event (new_events W (snd T)) =
         [CL_Acquire Q B1, CL_NDRange Q (tesselate_kernel 0x40A00000 2 2 B1) 2 2,
          CL_Release Q B1]
     \<and> fst R1 = Returns () \<and> R2 \<noteq> None \<and> strictly_alternating (events (snd (the R2))))"
proof -
  let ?W = "sample_world sharing_device no_failure"
  let ?Q = "Command_queue (Context sharing_device) sharing_device"
  let ?B1 = "Opengl_buffer (Context sharing_device) 1"
  let ?B2 = "Opengl_buffer (Context sharing_device) 2"
  let ?R = "Render_calls [dispatch_fails, no_failure, build_fails] (sample_mapper, ?W)"
  let ?T = "tesselate_sphere 0x40A00000 2 2 ?Q ?W"
  let ?R1 = "Render (sample_mapper, ?W)"
  let ?R2 = "Render_calls [build_fails] (snd ?R1)"
  have nt: "\<not> m_tesselated sample_mapper" and ev: "events ?W = []"
    by (simp_all add: sample_defs)
  from failed_dispatch_run have ne: "?R \<noteq> None"
    by auto
  then have r: "?R = Some (fst (the ?R), snd (the ?R))"
    by auto
  from failed_dispatch_run ne
  have q: "filter is_queue_event (events (snd (the ?R))) =
         [CL_Acquire ?Q ?B1, CL_Acquire ?Q ?B2,
          CL_NDRange ?Q (tesselate_kernel 0x40A00000 2 2 ?B2) 2 2, CL_Release ?Q ?B2]"
    by (auto simp: is_queue_event_def Let_def)
  have "fst ?T = Returns ?B1"
    by (simp add: eval_defs)
  then have t: "?T = (Returns ?B1, snd ?T)"
    by (metis prod.collapse)
  have o1: "fst ?R1 = Returns ()"
    by (simp add: eval_defs)
  then have r1: "?R1 = (Returns (), (fst (snd ?R1), snd (snd ?R1)))"
    by (metis prod.collapse)
  have fl: "m_initialized (fst (snd ?R1))" "m_tesselated (fst (snd ?R1))"
    by (simp_all add: eval_defs)
  from Render_calls_tesselated [OF fl, of "[build_fails]" "snd (snd ?R1)"]
  obtain w2 where r2: "Render_calls [build_fails] (fst (snd ?R1), snd (snd ?R1))
      = Some (fst (snd ?R1), w2)"
    by blast
  then have r2': "?R2 = Some (fst (snd ?R1), w2)" by simp
  note h = hand_off_protocol [OF nt ev r]
  from h have ok: "protocol_ok (events (snd (the ?R)))"
    by (rule conjunct1)
  from h t have qt: "filter is_queue_event (new_events ?W (snd ?T)) =
         [CL_Acquire ?Q ?B1, CL_NDRange ?Q (tesselate_kernel 0x40A00000 2 2 ?B1) 2 2,
          CL_Release ?Q ?B1]"
    by blast
  from h r1 r2 have "strictly_alternating (events w2)"
    by blast
  with r2' have sa: "?R2 \<noteq> None" "strictly_alternating (events (snd (the ?R2)))"
    by simp_all
  from nt ev ne ok q \<open>fst ?T = Returns ?B1\<close> qt o1 sa show ?thesis
    by (simp only: Let_def simp_thms)
qed

text \<open>
  C5 as stated fails on that run: on the one queue a second acquire is enqueued while the
  first, of the buffer whose dispatch failed, is still outstanding, and no dispatch and
  no release follow the first acquire.
\<close>

theorem failed_dispatch_breaks_alternation:
  "\<not> strictly_alternating
        (events (snd (the (Render_calls [dispatch_fails, no_failure, build_fails]
                             (sample_mapper, sample_world sharing_device no_failure)))))"
proof -
  let ?R = "Render_calls [dispatch_fails, no_failure, build_fails]
              (sample_mapper, sample_world sharing_device no_failure)"
  from failed_dispatch_run have "?R \<noteq> None"
    by auto
  with failed_dispatch_run
  have "filter is_queue_event (events (snd (the ?R))) =
         [CL_Acquire (Command_queue (Context sharing_device) sharing_device)
            (Opengl_buffer (Context sharing_device) 1),
          CL_Acquire (Command_queue (Context sharing_device) sharing_device)
            (Opengl_buffer (Context sharing_device) 2),
          CL_NDRange (Command_queue (Context sharing_device) sharing_device)
            (tesselate_kernel 0x40A00000 2 2 (Opengl_buffer (Context sharing_device) 2)) 2 2,
          CL_Release (Command_queue (Context sharing_device) sharing_device)
            (Opengl_buffer (Context sharing_device) 2)]"
    by (auto simp: is_queue_event_def Let_def)
  then show ?thesis
    unfolding strictly_alternating_def
    by (subst queue_cycle_filter) simp
qed

text \<open>The check of the protocol is a real one: a draw of a buffer that is acquired and not
  yet released breaks it, as do a second acquire of an acquired buffer and a release
  with no dispatch before it.\<close>

lemma protocol_rejects:
  "\<not> protocol_ok [CL_Acquire q (Opengl_buffer c 1),
                    CL_NDRange q (tesselate_kernel r p t (Opengl_buffer c 1)) p t,
                    GL_BindBuffer 1, GL_DrawArrays n]"
  "\<not> protocol_ok [CL_Acquire q (Opengl_buffer c 1), CL_Acquire q (Opengl_buffer c 1)]"
  "\<not> protocol_ok [CL_Acquire q (Opengl_buffer c 1), CL_Release q (Opengl_buffer c 1)]"
  by (simp_all add: protocol_ok_def protocol_step_def tesselate_kernel_def
      get_opengl_object_def is_released_def)

end
